theory Spec2Isabelle
  imports Main "HOL-Library.Word" "HOL-Library.Multiset"
begin

section \<open>The TALP region registry of DLB (LB_comm/shmem_talp.c)\<close>

text \<open>
  A shallow embedding of the shared-memory registry of monitoring regions. C \<open>int\<close> and
  \<open>pid_t\<close> values are HOL integers. Two computations on them can leave the 32-bit range
  at values the functions can be given, the product of \<open>open_shmem\<close> and the subtraction
  of \<open>cmp_region_list\<close>: their wrap-around is written out (\<open>wrap_int\<close>). The size grows
  only below the capacity, and the attach counter counts the attachments of one process:
  their increments are not wrapped. The
  two time counters are 64-bit words; the \<open>float\<close> field is carried as its 32-bit pattern,
  since the registry only stores and copies it. A C string is the list of the characters
  before its terminating NUL. Every function is one atomic step of one process: the
  segment lock and the process-local mutex that serialise the steps are not modelled, and
  neither are the warning of \<open>shmem_talp__init\<close> and the report \<open>shmem_talp__print_info\<close>.
\<close>

subsection \<open>Result codes\<close>

datatype dlb_error =
    DLB_NOUPDT
  | DLB_SUCCESS
  | DLB_ERR_INIT
  | DLB_ERR_NOSHMEM
  | DLB_ERR_NOPROC
  | DLB_ERR_NOENT
  | DLB_ERR_NOMEM

text \<open>
  Modelled from the spec: the header apis/dlb_errors.h with the numeric values of the
  codes is absent. The spec's error taxonomy lists not-attached, capacity-exhausted,
  not-found / invalid-id and init-mismatch as failures and says that no-update is not a
  failure; \<open>below_success e\<close> stands for the C test \<open>e < DLB_SUCCESS\<close>.
\<close>

fun below_success :: "dlb_error \<Rightarrow> bool" where
  "below_success DLB_NOUPDT = False"
| "below_success DLB_SUCCESS = False"
| "below_success DLB_ERR_INIT = True"
| "below_success DLB_ERR_NOSHMEM = True"
| "below_success DLB_ERR_NOPROC = True"
| "below_success DLB_ERR_NOENT = True"
| "below_success DLB_ERR_NOMEM = True"

text \<open>The outcome of a function that dereferences a pointer without a check.\<close>

datatype 'a outcome = Returns 'a | NullDeref

subsection \<open>Data model\<close>

type_synonym pid_t = int
type_synonym int64_t = "64 word"
type_synonym float_bits = "32 word"

definition NOBODY :: pid_t where
  "NOBODY = 0"

record talp_region_t =
  name :: string
  mpi_time :: int64_t
  useful_time :: int64_t
  pid :: pid_t
  avg_cpus :: float_bits

record shdata_t =
  initialized :: bool
  max_regions :: int
  num_regions :: int
  talp_region :: "talp_region_t list"

text \<open>The snapshot type \<open>talp_region_list_t\<close> handed to callers.\<close>

record talp_region_list_t =
  rl_pid :: pid_t
  rl_region_id :: int
  rl_mpi_time :: int64_t
  rl_useful_time :: int64_t
  rl_avg_cpus :: float_bits

text \<open>The compound literal \<open>(const talp_region_t){}\<close>: every field zero.\<close>

definition zero_region :: talp_region_t where
  "zero_region = \<lparr>name = [], mpi_time = 0, useful_time = 0, pid = 0, avg_cpus = 0\<rparr>"

text \<open>
  The file's static variables, together with the two things of the node they refer to:
  the payload of the shared segment (which outlives a local mapping) and the node's CPU
  count returned by \<open>mu_get_system_size()\<close>. \<open>shm_handler\<close> and \<open>shdata\<close> record whether
  the pointer is non-NULL; when it is, \<open>shdata\<close> points to \<open>segment\<close>. The static
  \<open>max_regions\<close> is named \<open>static_max_regions\<close> here, the field of the payload keeps the
  name \<open>max_regions\<close>.
\<close>

record world =
  shm_handler :: bool
  shdata :: bool
  static_max_regions :: int
  subprocesses_attached :: int
  system_size :: int
  segment :: shdata_t
  segment_exists :: bool

subsection \<open>C library functions\<close>

text \<open>
  \<open>strncmp\<close> on strings given by their characters before the NUL: the end of a string
  reads as the byte 0, and at most \<open>n\<close> characters are compared.
\<close>

fun strncmp :: "string \<Rightarrow> string \<Rightarrow> nat \<Rightarrow> int" where
  "strncmp s1 s2 0 = 0"
| "strncmp [] [] (Suc n) = 0"
| "strncmp [] (c2 # s2) (Suc n) = - of_char c2"
| "strncmp (c1 # s1) [] (Suc n) = of_char c1"
| "strncmp (c1 # s1) (c2 # s2) (Suc n) =
     (if c1 = c2 then strncmp s1 s2 n else of_char c1 - of_char c2)"

text \<open>
  \<open>snprintf(dst, size, "%s", src)\<close> into a zeroed destination: the string left in
  \<open>dst\<close> is \<open>src\<close> cut to \<open>size - 1\<close> characters.
\<close>

definition snprintf_s :: "nat \<Rightarrow> string \<Rightarrow> string" where
  "snprintf_s size_max src = take (size_max - 1) src"

text \<open>
  \<open>qsort\<close> with a comparison function, as an insertion sort: an element goes before
  the first element it does not compare greater than. The C library fixes no order among
  elements that compare equal; no statement below depends on that order.
\<close>

fun qsort_insert :: "('a \<Rightarrow> 'a \<Rightarrow> int) \<Rightarrow> 'a \<Rightarrow> 'a list \<Rightarrow> 'a list" where
  "qsort_insert cmp x [] = [x]"
| "qsort_insert cmp x (y # ys) =
     (if cmp x y \<le> 0 then x # y # ys else y # qsort_insert cmp x ys)"

fun qsort :: "('a \<Rightarrow> 'a \<Rightarrow> int) \<Rightarrow> 'a list \<Rightarrow> 'a list" where
  "qsort cmp [] = []"
| "qsort cmp (x # xs) = qsort_insert cmp x (qsort cmp xs)"

text \<open>
  The value of a C \<open>int\<close> expression whose mathematical result is \<open>k\<close>: the 32-bit two's
  complement value, as the compiled code computes it.
\<close>

definition wrap_int :: "int \<Rightarrow> int" where
  "wrap_int k = signed_take_bit 31 k"

subsection \<open>Size of the segment\<close>

text \<open>
  \<open>shmem_talp__size\<close>, counted in region records: the number of \<open>talp_region_t\<close>
  elements that follow the header in a segment of that many bytes.
\<close>

definition shmem_talp__size :: "world \<Rightarrow> int" where
  "shmem_talp__size s =
     (if static_max_regions s > 0 then static_max_regions s else system_size s)"

text \<open>\<open>memset(shared_data, 0, n)\<close>: the header and the first \<open>n\<close> records become zero.\<close>

definition memset_zero :: "shdata_t \<Rightarrow> int \<Rightarrow> shdata_t" where
  "memset_zero sh n =
     \<lparr>initialized = False, max_regions = 0, num_regions = 0,
      talp_region = replicate (min (nat n) (length (talp_region sh))) zero_region
                    @ drop (nat n) (talp_region sh)\<rparr>"

subsection \<open>Init and finalize\<close>

function cleanup_loop ::
  "talp_region_t list \<Rightarrow> pid_t \<Rightarrow> int \<Rightarrow> nat \<Rightarrow> bool \<Rightarrow> talp_region_t list \<times> bool" where
  "cleanup_loop regions p n region_id shmem_empty =
     (if int region_id < n then
        (if pid (regions ! region_id) = p then
           cleanup_loop (regions[region_id := zero_region]) p n (Suc region_id) shmem_empty
         else if pid (regions ! region_id) > 0 then
           cleanup_loop regions p n (Suc region_id) False
         else cleanup_loop regions p n (Suc region_id) shmem_empty)
      else (regions, shmem_empty))"
  by pat_completeness auto
termination
  by (relation "measure (\<lambda>(regions, p, n, region_id, e). nat n - region_id)") auto

definition cleanup_shmem :: "world \<Rightarrow> pid_t \<Rightarrow> world" where
  "cleanup_shmem s p =
     (let shared_data = segment s;
          (regions, shmem_empty) =
             cleanup_loop (talp_region shared_data) p (num_regions shared_data) 0 True;
          cleared = shared_data\<lparr>talp_region := regions\<rparr>
      in s\<lparr>segment :=
            (if shmem_empty then memset_zero cleared (shmem_talp__size s) else cleared)\<rparr>)"

function is_shmem_empty_loop :: "talp_region_t list \<Rightarrow> int \<Rightarrow> nat \<Rightarrow> bool" where
  "is_shmem_empty_loop regions n region_id =
     (if int region_id < n then
        (if pid (regions ! region_id) \<noteq> NOBODY then False
         else is_shmem_empty_loop regions n (Suc region_id))
      else True)"
  by pat_completeness auto
termination
  by (relation "measure (\<lambda>(regions, n, region_id). nat n - region_id)") auto

definition is_shmem_empty :: "world \<Rightarrow> bool" where
  "is_shmem_empty s =
     is_shmem_empty_loop (talp_region (segment s)) (num_regions (segment s)) 0"

text \<open>
  Modelled from the spec: \<open>shmem_init\<close> of LB_comm/shmem.c is absent. The first
  attacher creates the segment zeroed, sized for the requested number of records; a later
  attacher maps the existing segment as it is. Both pointers are set.
\<close>

definition shmem_init :: "world \<Rightarrow> world" where
  "shmem_init s =
     (let s1 = (if segment_exists s then s
                else s\<lparr>segment :=
                         \<lparr>initialized = False, max_regions = 0, num_regions = 0,
                          talp_region = replicate (nat (shmem_talp__size s)) zero_region\<rparr>,
                       segment_exists := True\<rparr>)
      in s1\<lparr>shm_handler := True, shdata := True\<rparr>)"

text \<open>
  Modelled from the spec: \<open>shmem_finalize\<close> of LB_comm/shmem.c is absent. It releases
  the local mapping without writing to the payload, and the segment is destroyed when the
  emptiness predicate it is given holds.
\<close>

definition shmem_finalize :: "world \<Rightarrow> bool \<Rightarrow> world" where
  "shmem_finalize s is_empty = s\<lparr>segment_exists := segment_exists s \<and> \<not> is_empty\<rparr>"

definition open_shmem :: "world \<Rightarrow> string \<Rightarrow> int \<Rightarrow> world" where
  "open_shmem s shmem_key shmem_size_multiplier =
     (if \<not> shm_handler s then
        (shmem_init
           (s\<lparr>static_max_regions := wrap_int (system_size s * shmem_size_multiplier)\<rparr>))
          \<lparr>subprocesses_attached := 1\<rparr>
      else s\<lparr>subprocesses_attached := subprocesses_attached s + 1\<rparr>)"

definition close_shmem :: "world \<Rightarrow> world" where
  "close_shmem s =
     (let s1 = s\<lparr>subprocesses_attached := subprocesses_attached s - 1\<rparr>
      in if subprocesses_attached s1 = 0 then
           (shmem_finalize s1 (is_shmem_empty s1))\<lparr>shm_handler := False, shdata := False\<rparr>
         else s1)"

definition shmem_talp__init :: "world \<Rightarrow> string \<Rightarrow> int \<Rightarrow> dlb_error \<times> world" where
  "shmem_talp__init s shmem_key shmem_size_multiplier =
     (let s1 = open_shmem s shmem_key shmem_size_multiplier;
          (error, s2) =
             (if \<not> initialized (segment s1) then
                (DLB_SUCCESS,
                 s1\<lparr>segment := (segment s1)\<lparr>initialized := True, num_regions := 0,
                                            max_regions := static_max_regions s1\<rparr>\<rparr>)
              else if max_regions (segment s1) \<noteq> static_max_regions s1 then
                (DLB_ERR_INIT, s1)
              else (DLB_SUCCESS, s1))
      in if below_success error then (error, close_shmem s2) else (error, s2))"

definition shmem_talp_ext__init :: "world \<Rightarrow> string \<Rightarrow> int \<Rightarrow> dlb_error \<times> world" where
  "shmem_talp_ext__init s shmem_key shmem_size_multiplier =
     (DLB_SUCCESS, open_shmem s shmem_key shmem_size_multiplier)"

function finalize_loop :: "talp_region_t list \<Rightarrow> pid_t \<Rightarrow> int \<Rightarrow> nat \<Rightarrow> talp_region_t list" where
  "finalize_loop regions p n region_id =
     (if int region_id < n then
        finalize_loop
          (if pid (regions ! region_id) = p then regions[region_id := zero_region]
           else regions)
          p n (Suc region_id)
      else regions)"
  by pat_completeness auto
termination
  by (relation "measure (\<lambda>(regions, p, n, region_id). nat n - region_id)") auto

definition shmem_talp__finalize :: "world \<Rightarrow> pid_t \<Rightarrow> dlb_error \<times> world" where
  "shmem_talp__finalize s p =
     (if \<not> shm_handler s then (DLB_ERR_NOSHMEM, s)
      else
        let sh = segment s;
            s1 = s\<lparr>segment :=
                     sh\<lparr>talp_region := finalize_loop (talp_region sh) p (num_regions sh) 0\<rparr>\<rparr>
        in (DLB_SUCCESS, close_shmem s1))"

definition shmem_talp_ext__finalize :: "world \<Rightarrow> dlb_error \<times> world" where
  "shmem_talp_ext__finalize s =
     (if \<not> shm_handler s then (DLB_ERR_NOSHMEM, s) else (DLB_SUCCESS, close_shmem s))"

subsection \<open>Register regions\<close>

text \<open>
  The test of the search loops: same pid, and the names agree on their first
  \<open>DLB_MONITOR_NAME_MAX - 1\<close> characters. The constant \<open>DLB_MONITOR_NAME_MAX\<close> (the size
  of the \<open>name\<close> array, declared in the absent apis/dlb_talp.h) is the parameter
  \<open>NAME_MAX\<close> of every function that uses it.
\<close>

definition region_matches :: "nat \<Rightarrow> talp_region_t \<Rightarrow> pid_t \<Rightarrow> string \<Rightarrow> bool" where
  "region_matches NAME_MAX region p nm \<longleftrightarrow>
     pid region = p \<and> strncmp (name region) nm (NAME_MAX - 1) = 0"

function register_loop ::
  "nat \<Rightarrow> talp_region_t list \<Rightarrow> pid_t \<Rightarrow> string \<Rightarrow> int \<Rightarrow> nat \<Rightarrow> nat" where
  "register_loop NAME_MAX regions p nm n region_id =
     (if int region_id < n then
        (if region_matches NAME_MAX (regions ! region_id) p nm then region_id
         else register_loop NAME_MAX regions p nm n (Suc region_id))
      else region_id)"
  by pat_completeness auto
termination
  by (relation "measure (\<lambda>(NAME_MAX, regions, p, nm, n, region_id). nat n - region_id)") auto

text \<open>
  The second component is the value written through \<open>node_shared_id\<close>, \<open>None\<close> when
  the function does not write it.
\<close>

definition shmem_talp__register ::
  "nat \<Rightarrow> world \<Rightarrow> pid_t \<Rightarrow> float_bits \<Rightarrow> string \<Rightarrow> dlb_error \<times> int option \<times> world" where
  "shmem_talp__register NAME_MAX s p avg nm =
     (if \<not> shm_handler s then (DLB_ERR_NOSHMEM, None, s)
      else
        let sh = segment s;
            n = num_regions sh;
            region_id = register_loop NAME_MAX (talp_region sh) p nm n 0
        in if int region_id < n then (DLB_NOUPDT, Some (int region_id), s)
           else if n < static_max_regions s then
             (DLB_SUCCESS, Some (int region_id),
              s\<lparr>segment :=
                  sh\<lparr>num_regions := n + 1,
                     talp_region := (talp_region sh)
                       [region_id := \<lparr>name = snprintf_s NAME_MAX nm, mpi_time = 0,
                                       useful_time = 0, pid = p, avg_cpus = avg\<rparr>]\<rparr>\<rparr>)
           else (DLB_ERR_NOMEM, None, s))"

subsection \<open>Getters\<close>

function pidlist_loop :: "talp_region_t list \<Rightarrow> int \<Rightarrow> int \<Rightarrow> nat \<Rightarrow> pid_t list \<Rightarrow> pid_t list" where
  "pidlist_loop regions n max_len region_id pidlist =
     (if int region_id < n \<and> int (length pidlist) < max_len then
        (let p = pid (regions ! region_id)
         in if p \<noteq> NOBODY \<and> p \<notin> set pidlist then
              pidlist_loop regions n max_len (Suc region_id) (pidlist @ [p])
            else pidlist_loop regions n max_len (Suc region_id) pidlist)
      else pidlist)"
  by pat_completeness auto
termination
  by (relation "measure (\<lambda>(regions, n, max_len, region_id, pidlist). nat n - region_id)") auto

text \<open>
  The list returned is the part of the caller's buffer that was written; \<open>*nelems\<close> is
  its length. \<open>None\<close>: nothing was written.
\<close>

definition shmem_talp__get_pidlist :: "world \<Rightarrow> int \<Rightarrow> dlb_error \<times> pid_t list option" where
  "shmem_talp__get_pidlist s max_len =
     (if \<not> shm_handler s then (DLB_ERR_NOSHMEM, None)
      else (DLB_SUCCESS,
            Some (pidlist_loop (talp_region (segment s)) (num_regions (segment s)) max_len 0 [])))"

definition cmp_region_list :: "talp_region_list_t \<Rightarrow> talp_region_list_t \<Rightarrow> int" where
  "cmp_region_list elem1 elem2 = wrap_int (rl_pid elem1 - rl_pid elem2)"

definition region_snapshot :: "talp_region_t \<Rightarrow> nat \<Rightarrow> talp_region_list_t" where
  "region_snapshot region region_id =
     \<lparr>rl_pid = pid region, rl_region_id = int region_id,
      rl_mpi_time = mpi_time region, rl_useful_time = useful_time region,
      rl_avg_cpus = avg_cpus region\<rparr>"

function get_region_loop ::
  "nat \<Rightarrow> talp_region_t list \<Rightarrow> pid_t \<Rightarrow> string \<Rightarrow> int \<Rightarrow> nat \<Rightarrow> talp_region_list_t option" where
  "get_region_loop NAME_MAX regions p nm n region_id =
     (if int region_id < n then
        (if region_matches NAME_MAX (regions ! region_id) p nm then
           Some ((region_snapshot (regions ! region_id) region_id)\<lparr>rl_pid := p\<rparr>)
         else get_region_loop NAME_MAX regions p nm n (Suc region_id))
      else None)"
  by pat_completeness auto
termination
  by (relation "measure (\<lambda>(NAME_MAX, regions, p, nm, n, region_id). nat n - region_id)") auto

definition shmem_talp__get_region ::
  "nat \<Rightarrow> world \<Rightarrow> pid_t \<Rightarrow> string \<Rightarrow> dlb_error \<times> talp_region_list_t option" where
  "shmem_talp__get_region NAME_MAX s p nm =
     (if \<not> shm_handler s then (DLB_ERR_NOSHMEM, None)
      else
        (case get_region_loop NAME_MAX (talp_region (segment s)) p nm
                (num_regions (segment s)) 0 of
           Some region \<Rightarrow> (DLB_SUCCESS, Some region)
         | None \<Rightarrow> (DLB_ERR_NOPROC, None)))"

function regionlist_loop ::
  "nat \<Rightarrow> talp_region_t list \<Rightarrow> string \<Rightarrow> int \<Rightarrow> int \<Rightarrow> nat \<Rightarrow> talp_region_list_t list
     \<Rightarrow> talp_region_list_t list" where
  "regionlist_loop NAME_MAX regions nm n max_len region_id region_list =
     (if int region_id < n \<and> int (length region_list) < max_len then
        (if pid (regions ! region_id) \<noteq> NOBODY
            \<and> strncmp (name (regions ! region_id)) nm (NAME_MAX - 1) = 0 then
           regionlist_loop NAME_MAX regions nm n max_len (Suc region_id)
             (region_list @ [region_snapshot (regions ! region_id) region_id])
         else regionlist_loop NAME_MAX regions nm n max_len (Suc region_id) region_list)
      else region_list)"
  by pat_completeness auto
termination
  by (relation "measure (\<lambda>(NAME_MAX, regions, nm, n, max_len, region_id, region_list).
        nat n - region_id)") auto

definition shmem_talp__get_regionlist ::
  "nat \<Rightarrow> world \<Rightarrow> int \<Rightarrow> string \<Rightarrow> dlb_error \<times> talp_region_list_t list option" where
  "shmem_talp__get_regionlist NAME_MAX s max_len nm =
     (if \<not> shm_handler s then (DLB_ERR_NOSHMEM, None)
      else (DLB_SUCCESS,
            Some (qsort cmp_region_list
                    (regionlist_loop NAME_MAX (talp_region (segment s)) nm
                       (num_regions (segment s)) max_len 0 []))))"

definition shmem_talp__get_times :: "world \<Rightarrow> int \<Rightarrow> dlb_error \<times> (int64_t \<times> int64_t) option" where
  "shmem_talp__get_times s region_id =
     (if \<not> shm_handler s then (DLB_ERR_NOSHMEM, None)
      else if region_id \<ge> static_max_regions s then (DLB_ERR_NOMEM, None)
      else if region_id \<ge> num_regions (segment s) then (DLB_ERR_NOENT, None)
      else if region_id < 0 then (DLB_ERR_NOENT, None)
      else
        let region = talp_region (segment s) ! nat region_id
        in if pid region = NOBODY then (DLB_ERR_NOENT, None)
           else (DLB_SUCCESS, Some (mpi_time region, useful_time region)))"

subsection \<open>Setters\<close>

definition shmem_talp__set_times :: "world \<Rightarrow> int \<Rightarrow> int64_t \<Rightarrow> int64_t \<Rightarrow> dlb_error \<times> world" where
  "shmem_talp__set_times s region_id mpi useful =
     (if \<not> shm_handler s then (DLB_ERR_NOSHMEM, s)
      else if region_id \<ge> static_max_regions s then (DLB_ERR_NOMEM, s)
      else if region_id \<ge> num_regions (segment s) then (DLB_ERR_NOENT, s)
      else if region_id < 0 then (DLB_ERR_NOENT, s)
      else
        let regions = talp_region (segment s);
            region = regions ! nat region_id
        in if pid region = NOBODY then (DLB_ERR_NOENT, s)
           else (DLB_SUCCESS,
                 s\<lparr>segment := (segment s)\<lparr>talp_region :=
                     regions[nat region_id :=
                       region\<lparr>mpi_time := mpi, useful_time := useful\<rparr>]\<rparr>\<rparr>))"

definition shmem_talp__set_avg_cpus :: "world \<Rightarrow> int \<Rightarrow> float_bits \<Rightarrow> dlb_error \<times> world" where
  "shmem_talp__set_avg_cpus s region_id avg =
     (if \<not> shm_handler s then (DLB_ERR_NOSHMEM, s)
      else if region_id \<ge> static_max_regions s then (DLB_ERR_NOMEM, s)
      else if region_id \<ge> num_regions (segment s) then (DLB_ERR_NOENT, s)
      else if region_id < 0 then (DLB_ERR_NOENT, s)
      else
        let regions = talp_region (segment s);
            region = regions ! nat region_id
        in if pid region = NOBODY then (DLB_ERR_NOENT, s)
           else (DLB_SUCCESS,
                 s\<lparr>segment := (segment s)\<lparr>talp_region :=
                     regions[nat region_id := region\<lparr>avg_cpus := avg\<rparr>]\<rparr>\<rparr>))"

subsection \<open>Misc\<close>

definition shmem_talp__exists :: "world \<Rightarrow> bool" where
  "shmem_talp__exists s = shm_handler s"

definition shmem_talp__initialized :: "world \<Rightarrow> bool" where
  "shmem_talp__initialized s = (shdata s \<and> initialized (segment s))"

definition shmem_talp__get_max_regions :: "world \<Rightarrow> int" where
  "shmem_talp__get_max_regions s = static_max_regions s"

definition shmem_talp__get_num_regions :: "world \<Rightarrow> int outcome" where
  "shmem_talp__get_num_regions s =
     (if shdata s then Returns (num_regions (segment s)) else NullDeref)"

section \<open>Invariant, call sequences and example states\<close>

text \<open>
  The shape of the table as one attached process sees it: the size is between 0 and the
  capacity the process checks against, and the mapping holds \<open>shmem_talp__size\<close> records.
\<close>

definition table_inv :: "world \<Rightarrow> bool" where
  "table_inv s \<longleftrightarrow>
     0 \<le> num_regions (segment s) \<and> num_regions (segment s) \<le> static_max_regions s \<and>
     length (talp_region (segment s)) = nat (shmem_talp__size s)"

text \<open>A sequence of register calls: the code and id of each call, and the final state.\<close>

fun register_each ::
  "nat \<Rightarrow> world \<Rightarrow> (pid_t \<times> float_bits \<times> string) list
     \<Rightarrow> (dlb_error \<times> int option) list \<times> world" where
  "register_each NAME_MAX s [] = ([], s)"
| "register_each NAME_MAX s ((p, avg, nm) # calls) =
     (case shmem_talp__register NAME_MAX s p avg nm of
        (error, node_shared_id, s') \<Rightarrow>
          (case register_each NAME_MAX s' calls of
             (results, s'') \<Rightarrow> ((error, node_shared_id) # results, s'')))"

text \<open>Slot \<open>k\<close> is the first slot of the dense prefix that matches \<open>(p, nm)\<close>.\<close>

definition first_match :: "nat \<Rightarrow> world \<Rightarrow> pid_t \<Rightarrow> string \<Rightarrow> nat \<Rightarrow> bool" where
  "first_match N s p nm k \<longleftrightarrow>
     shm_handler s \<and> int k < num_regions (segment s) \<and>
     region_matches N (talp_region (segment s) ! k) p nm \<and>
     (\<forall>j<k. \<not> region_matches N (talp_region (segment s) ! j) p nm)"

text \<open>
  What identifies a registration: the pid and the name as it is stored and compared, that
  is, cut to \<open>DLB_MONITOR_NAME_MAX - 1\<close> characters.
\<close>

definition region_key :: "nat \<Rightarrow> pid_t \<times> float_bits \<times> string \<Rightarrow> pid_t \<times> string" where
  "region_key NAME_MAX call = (fst call, take (NAME_MAX - 1) (snd (snd call)))"

text \<open>The names of the calls are C strings: no character of a name is NUL.\<close>

definition c_strings :: "(pid_t \<times> float_bits \<times> string) list \<Rightarrow> bool" where
  "c_strings calls \<longleftrightarrow> list_all (\<lambda>call. CHR 0x00 \<notin> set (snd (snd call))) calls"

text \<open>The dense prefix holds exactly the registrations \<open>done\<close>, in order.\<close>

definition holds_calls :: "nat \<Rightarrow> world \<Rightarrow> (pid_t \<times> float_bits \<times> string) list \<Rightarrow> bool" where
  "holds_calls N s done \<longleftrightarrow>
     shm_handler s \<and> table_inv s \<and> num_regions (segment s) = int (length done) \<and>
     (\<forall>j<length done. pid (talp_region (segment s) ! j) = fst (done ! j) \<and>
                        name (talp_region (segment s) ! j) = take (N - 1) (snd (snd (done ! j))))"

text \<open>
  Example states, each reached by running the operations from a node with no segment,
  with 128 as an example value of \<open>DLB_MONITOR_NAME_MAX\<close>.
\<close>

definition fresh_world :: "int \<Rightarrow> world" where
  "fresh_world ncpus =
     \<lparr>shm_handler = False, shdata = False, static_max_regions = 0, subprocesses_attached = 0,
      system_size = ncpus,
      segment = \<lparr>initialized = False, max_regions = 0, num_regions = 0, talp_region = []\<rparr>,
      segment_exists = False\<rparr>"

definition attached_world :: world where
  "attached_world = snd (shmem_talp__init (fresh_world 2) ''talp'' 1)"

definition one_region_world :: world where
  "one_region_world = snd (snd (shmem_talp__register 128 attached_world 5 0 ''R1''))"

definition full_world :: world where
  "full_world = snd (register_each 128 attached_world [(5, 0, ''R1''), (6, 0, ''R1'')])"

definition two_region_world :: world where
  "two_region_world =
     snd (register_each 128 (snd (shmem_talp__init (fresh_world 4) ''talp'' 1))
            [(5, 0, ''A''), (6, 0, ''B'')])"

definition vacated_world :: world where
  "vacated_world = cleanup_shmem two_region_world 5"

definition twice_attached_world :: world where
  "twice_attached_world = snd (shmem_talp_ext__init one_region_world ''talp'' 1)"

text \<open>
  The code that the three counter-access functions return: not attached; id at or beyond
  the capacity; id negative, at or beyond the size, or naming a vacated slot; success.
\<close>

definition access_code :: "world \<Rightarrow> int \<Rightarrow> dlb_error" where
  "access_code s region_id =
     (if \<not> shm_handler s then DLB_ERR_NOSHMEM
      else if static_max_regions s \<le> region_id then DLB_ERR_NOMEM
      else if region_id < 0 \<or> num_regions (segment s) \<le> region_id
              \<or> pid (talp_region (segment s) ! nat region_id) = NOBODY then DLB_ERR_NOENT
      else DLB_SUCCESS)"

text \<open>
  The dense prefix: the slots below the size. Clearing the records of a pid maps the
  prefix and leaves the rest of the array; a zeroed payload has a zero header and zero
  records.
\<close>

definition dense_prefix :: "world \<Rightarrow> talp_region_t list" where
  "dense_prefix s = take (nat (num_regions (segment s))) (talp_region (segment s))"

definition clear_owned :: "pid_t \<Rightarrow> talp_region_t \<Rightarrow> talp_region_t" where
  "clear_owned p region = (if pid region = p then zero_region else region)"

definition cleared_table :: "world \<Rightarrow> pid_t \<Rightarrow> talp_region_t list" where
  "cleared_table s p =
     map (clear_owned p) (dense_prefix s)
     @ drop (nat (num_regions (segment s))) (talp_region (segment s))"

definition zero_payload :: "nat \<Rightarrow> shdata_t" where
  "zero_payload n =
     \<lparr>initialized = False, max_regions = 0, num_regions = 0,
      talp_region = replicate n zero_region\<rparr>"

text \<open>
  What \<open>get_regionlist\<close> is to collect, in the spec's words: for each slot of the dense
  prefix that is live and whose name matches, in table order, the snapshot
  \<open>{pid, region_id, mpi_time, useful_time, avg_cpus}\<close> that copies the fields of the record
  and carries the index of the slot.
\<close>

definition live_match :: "nat \<Rightarrow> string \<Rightarrow> talp_region_t \<Rightarrow> bool" where
  "live_match N nm region \<longleftrightarrow> pid region \<noteq> NOBODY \<and> strncmp (name region) nm (N - 1) = 0"

definition matches_from :: "nat \<Rightarrow> talp_region_t list \<Rightarrow> string \<Rightarrow> int \<Rightarrow> nat \<Rightarrow> talp_region_list_t list" where
  "matches_from N regions nm n i =
     map (\<lambda>k. \<lparr>rl_pid = pid (regions ! k), rl_region_id = int k,
               rl_mpi_time = mpi_time (regions ! k),
               rl_useful_time = useful_time (regions ! k),
               rl_avg_cpus = avg_cpus (regions ! k)\<rparr>)
       (filter (\<lambda>k. live_match N nm (regions ! k)) [i..<nat n])"

definition live_matches :: "nat \<Rightarrow> world \<Rightarrow> string \<Rightarrow> talp_region_list_t list" where
  "live_matches N s nm =
     matches_from N (talp_region (segment s)) nm (num_regions (segment s)) 0"

text \<open>
  The owners in the dense prefix are process ids: non-negative values of the 32-bit type
  \<open>pid_t\<close>. Then the subtraction of \<open>cmp_region_list\<close> stays within \<open>int\<close>.
\<close>

definition valid_pids :: "world \<Rightarrow> bool" where
  "valid_pids s \<longleftrightarrow>
     (\<forall>k<nat (num_regions (segment s)).
        0 \<le> pid (talp_region (segment s) ! k) \<and> pid (talp_region (segment s) ! k) < 2 ^ 31)"

definition listing_world :: world where
  "listing_world =
     snd (shmem_talp__set_times
       (snd (shmem_talp__set_times
         (snd (shmem_talp__set_times
           (snd (register_each 128 (snd (shmem_talp__init (fresh_world 4) ''talp'' 1))
                   [(30, 3, ''X''), (10, 1, ''X''), (20, 2, ''X''), (15, 9, ''Y'')]))
           0 300 301))
         1 100 101))
       2 200 201)"

text \<open>
  Another process of the node that has not attached: its statics are the initial ones, the
  segment is the one the first process initialized with capacity 2.
\<close>

definition second_process_world :: world where
  "second_process_world =
     one_region_world\<lparr>shm_handler := False, shdata := False, static_max_regions := 0,
                      subprocesses_attached := 0\<rparr>"

text \<open>
  A process of a node with four CPUs that has not attached, next to a segment that another
  process initialized with capacity 4.
\<close>

definition four_cpu_second_world :: world where
  "four_cpu_second_world =
     (snd (shmem_talp__init (fresh_world 4) ''talp'' 1))
       \<lparr>shm_handler := False, shdata := False, static_max_regions := 0,
        subprocesses_attached := 0\<rparr>"


section \<open>Registration\<close>

declare register_loop.simps [simp del] finalize_loop.simps [simp del]
  cleanup_loop.simps [simp del] is_shmem_empty_loop.simps [simp del]
  pidlist_loop.simps [simp del] regionlist_loop.simps [simp del]

subsection \<open>The search loop\<close>

lemma register_loop_first:
  "i \<le> k \<Longrightarrow> int k < n \<Longrightarrow> region_matches N (regions ! k) p nm \<Longrightarrow>
   (\<forall>j. i \<le> j \<and> j < k \<longrightarrow> \<not> region_matches N (regions ! j) p nm) \<Longrightarrow>
   register_loop N regions p nm n i = k"
proof (induction N regions p nm n i rule: register_loop.induct)
  case (1 N regions p nm n i)
  show ?case
  proof (cases "i = k")
    case True
    with "1.prems" show ?thesis by (simp add: register_loop.simps)
  next
    case False
    with "1.prems" have lt: "i < k" and nm: "\<not> region_matches N (regions ! i) p nm"
      by auto
    from lt "1.prems" have "int i < n" by linarith
    moreover have "register_loop N regions p nm n (Suc i) = k"
      using "1.IH" [OF \<open>int i < n\<close> nm] lt "1.prems" by auto
    ultimately show ?thesis using nm by (simp add: register_loop.simps)
  qed
qed

lemma register_loop_none:
  "(\<forall>j. i \<le> j \<and> int j < n \<longrightarrow> \<not> region_matches N (regions ! j) p nm) \<Longrightarrow>
   register_loop N regions p nm n i = max i (nat n)"
proof (induction N regions p nm n i rule: register_loop.induct)
  case (1 N regions p nm n i)
  show ?case
  proof (cases "int i < n")
    case True
    with "1.prems" have nm: "\<not> region_matches N (regions ! i) p nm" by auto
    have "register_loop N regions p nm n (Suc i) = max (Suc i) (nat n)"
      using "1.IH" [OF True nm] "1.prems" by auto
    with True nm show ?thesis by (auto simp: register_loop.simps)
  next
    case False
    then show ?thesis by (auto simp: register_loop.simps)
  qed
qed

lemma register_loop_notfound:
  "\<not> int (register_loop N regions p nm n i) < n \<Longrightarrow>
   register_loop N regions p nm n i = max i (nat n)"
proof (induction N regions p nm n i rule: register_loop.induct)
  case (1 N regions p nm n i)
  show ?case
  proof (cases "int i < n")
    case False
    then show ?thesis by (auto simp: register_loop.simps)
  next
    case True
    show ?thesis
    proof (cases "region_matches N (regions ! i) p nm")
      case m: True
      with True "1.prems" show ?thesis by (simp add: register_loop.simps)
    next
      case m: False
      have eq: "register_loop N regions p nm n i = register_loop N regions p nm n (Suc i)"
        using True m by (simp add: register_loop.simps)
      from "1.IH" [OF True m] "1.prems" eq
      have "register_loop N regions p nm n (Suc i) = max (Suc i) (nat n)" by simp
      with eq True show ?thesis by linarith
    qed
  qed
qed

lemma register_loop_nomatch:
  "\<not> int (register_loop N regions p nm n i) < n \<Longrightarrow> i \<le> j \<Longrightarrow> int j < n \<Longrightarrow>
   \<not> region_matches N (regions ! j) p nm"
proof
  assume nf: "\<not> int (register_loop N regions p nm n i) < n" and ij: "i \<le> j" and jn: "int j < n"
    and m: "region_matches N (regions ! j) p nm"
  define k where "k = (LEAST k. i \<le> k \<and> region_matches N (regions ! k) p nm)"
  have k: "i \<le> k \<and> region_matches N (regions ! k) p nm"
    unfolding k_def by (rule LeastI [of _ j]) (simp add: ij m)
  have kj: "k \<le> j" unfolding k_def by (rule Least_le) (simp add: ij m)
  have least: "\<forall>l. i \<le> l \<and> l < k \<longrightarrow> \<not> region_matches N (regions ! l) p nm"
    unfolding k_def using not_less_Least by blast
  have "register_loop N regions p nm n i = k"
    using register_loop_first [of i k n N regions p nm] k kj jn least by auto
  with nf kj jn show False by simp
qed

subsection \<open>Names\<close>

lemma strncmp_take_self: "strncmp (take k s) s k = 0"
  by (induction "take k s" s k arbitrary: rule: strncmp.induct) auto

lemma of_char_eq_0_iff: "(of_char c :: int) = 0 \<longleftrightarrow> c = CHR 0x00"
proof -
  have "(of_char c :: int) = of_char (CHR 0x00) \<longleftrightarrow> c = CHR 0x00"
    by (rule of_char_eq_iff)
  then show ?thesis by simp
qed

lemma strncmp_eq_0_iff:
  "CHR 0x00 \<notin> set a \<Longrightarrow> CHR 0x00 \<notin> set b \<Longrightarrow> strncmp a b n = 0 \<longleftrightarrow> take n a = take n b"
  by (induction a b n rule: strncmp.induct) (auto simp: of_char_eq_0_iff of_char_eq_iff)

lemma new_region_matches:
  "region_matches N
     \<lparr>name = snprintf_s N nm, mpi_time = 0, useful_time = 0, pid = p, avg_cpus = avg\<rparr> p nm"
  by (simp add: region_matches_def snprintf_s_def strncmp_take_self)

subsection \<open>Found, created, full\<close>

lemma register_found:
  assumes "first_match N s p nm k"
  shows "shmem_talp__register N s p avg nm = (DLB_NOUPDT, Some (int k), s)"
proof -
  from assms have "register_loop N (talp_region (segment s)) p nm (num_regions (segment s)) 0 = k"
    by (intro register_loop_first) (auto simp: first_match_def)
  with assms show ?thesis
    by (simp add: shmem_talp__register_def first_match_def Let_def)
qed

lemma register_success_first_match:
  assumes inv: "table_inv s"
    and reg: "shmem_talp__register N s p avg nm = (DLB_SUCCESS, Some i, s')"
  shows "0 \<le> i \<and> first_match N s' p nm (nat i)"
proof -
  let ?sh = "segment s"
  let ?r = "register_loop N (talp_region ?sh) p nm (num_regions ?sh) 0"
  from reg have h: "shm_handler s" and nf: "\<not> int ?r < num_regions ?sh"
    and room: "num_regions ?sh < static_max_regions s"
    by (auto simp: shmem_talp__register_def Let_def split: if_splits)
  from nf have r: "?r = nat (num_regions ?sh)"
    using register_loop_notfound [of N "talp_region ?sh" p nm "num_regions ?sh" 0] by simp
  from reg h nf room have i: "i = int ?r"
    and s': "s' = s\<lparr>segment := ?sh\<lparr>num_regions := num_regions ?sh + 1,
         talp_region := (talp_region ?sh)[?r := \<lparr>name = snprintf_s N nm, mpi_time = 0,
            useful_time = 0, pid = p, avg_cpus = avg\<rparr>]\<rparr>\<rparr>"
    by (auto simp: shmem_talp__register_def Let_def)
  from inv room have len: "?r < length (talp_region ?sh)"
    by (auto simp: r table_inv_def shmem_talp__size_def)
  have old: "\<forall>j<?r. \<not> region_matches N (talp_region ?sh ! j) p nm"
    using register_loop_nomatch [OF nf] inv by (auto simp: r table_inv_def)
  show ?thesis
    using h inv len old new_region_matches [of N nm p avg]
    by (auto simp: i s' first_match_def r table_inv_def)
qed

lemma register_keeps_first_match:
  assumes "first_match N s p nm k"
  shows "first_match N (snd (snd (shmem_talp__register N s q avg' nm'))) p nm k"
  using assms
  by (auto simp: shmem_talp__register_def Let_def first_match_def nth_list_update
      dest: register_loop_notfound)

lemma register_each_keeps_first_match:
  "first_match N s p nm k \<Longrightarrow> first_match N (snd (register_each N s calls)) p nm k"
proof (induction calls arbitrary: s)
  case Nil
  then show ?case by simp
next
  case (Cons c calls)
  obtain q avg' nm' where c: "c = (q, avg', nm')" by (cases c)
  obtain e r s1 where reg: "shmem_talp__register N s q avg' nm' = (e, r, s1)"
    by (cases "shmem_talp__register N s q avg' nm'")
  from register_keeps_first_match [OF Cons.prems, of q avg' nm'] reg
  have "first_match N s1 p nm k" by simp
  from Cons.IH [OF this] show ?case
    by (auto simp: c reg split: prod.splits)
qed

lemma register_full:
  assumes "shm_handler s"
    and "num_regions (segment s) = shmem_talp__get_max_regions s"
    and "\<forall>j. int j < num_regions (segment s) \<longrightarrow>
           \<not> region_matches N (talp_region (segment s) ! j) p nm"
  shows "shmem_talp__register N s p avg nm = (DLB_ERR_NOMEM, None, s)"
proof -
  have "register_loop N (talp_region (segment s)) p nm (num_regions (segment s)) 0
          = max 0 (nat (num_regions (segment s)))"
    using assms(3) by (intro register_loop_none) simp
  with assms(1,2) show ?thesis
    by (simp add: shmem_talp__register_def shmem_talp__get_max_regions_def Let_def)
qed

lemma holds_calls_nomatch:
  assumes h: "holds_calls N s done" and cs: "c_strings done" "CHR 0x00 \<notin> set nm"
    and new: "(p, take (N - 1) nm) \<notin> region_key N ` set done"
    and j: "int j < num_regions (segment s)"
  shows "\<not> region_matches N (talp_region (segment s) ! j) p nm"
proof
  assume m: "region_matches N (talp_region (segment s) ! j) p nm"
  from h j have jl: "j < length done" by (simp add: holds_calls_def)
  with h have pj: "pid (talp_region (segment s) ! j) = fst (done ! j)"
    and nj: "name (talp_region (segment s) ! j) = take (N - 1) (snd (snd (done ! j)))"
    by (simp_all add: holds_calls_def)
  from cs(1) jl have "CHR 0x00 \<notin> set (snd (snd (done ! j)))"
    by (simp add: c_strings_def list_all_length)
  then have "CHR 0x00 \<notin> set (take (N - 1) (snd (snd (done ! j))))"
    by (meson in_set_takeD)
  with m cs(2) have "take (N - 1) (snd (snd (done ! j))) = take (N - 1) nm"
    by (simp add: region_matches_def nj strncmp_eq_0_iff)
  with m pj have "region_key N (done ! j) = (p, take (N - 1) nm)"
    by (simp add: region_key_def region_matches_def)
  with new jl show False by (metis image_eqI nth_mem)
qed

lemma register_fresh:
  assumes h: "holds_calls N s done" and cs: "c_strings done" "CHR 0x00 \<notin> set nm"
    and new: "(p, take (N - 1) nm) \<notin> region_key N ` set done"
    and room: "int (length done) < static_max_regions s"
  shows "\<exists>s'. shmem_talp__register N s p avg nm = (DLB_SUCCESS, Some (int (length done)), s') \<and>
           holds_calls N s' (done @ [(p, avg, nm)]) \<and> static_max_regions s' = static_max_regions s"
proof -
  let ?sh = "segment s"
  have none: "\<forall>j. 0 \<le> j \<and> int j < num_regions ?sh \<longrightarrow>
      \<not> region_matches N (talp_region ?sh ! j) p nm"
    using holds_calls_nomatch [OF h cs new] by simp
  have r: "register_loop N (talp_region ?sh) p nm (int (length done)) 0 = length done"
    using register_loop_none [OF none] h by (simp add: holds_calls_def)
  from h room have len: "length done < length (talp_region ?sh)"
    by (auto simp: holds_calls_def table_inv_def shmem_talp__size_def)
  show ?thesis
    using h room len
    by (auto simp: shmem_talp__register_def Let_def r holds_calls_def table_inv_def
        shmem_talp__size_def nth_list_update nth_append snprintf_s_def less_Suc_eq)
qed

lemma register_each_append:
  "register_each N s (xs @ ys) =
     (fst (register_each N s xs) @ fst (register_each N (snd (register_each N s xs)) ys),
      snd (register_each N (snd (register_each N s xs)) ys))"
  by (induction xs arbitrary: s) (auto split: prod.splits)

lemma register_each_fill:
  assumes "holds_calls N s done" and "c_strings (done @ calls)"
    and "distinct (map (region_key N) (done @ calls))"
    and "int (length done) + int (length calls) \<le> static_max_regions s"
  shows "fst (register_each N s calls) =
           map (\<lambda>k. (DLB_SUCCESS, Some (int k))) [length done ..< length done + length calls] \<and>
         holds_calls N (snd (register_each N s calls)) (done @ calls) \<and>
         static_max_regions (snd (register_each N s calls)) = static_max_regions s"
  using assms
proof (induction calls arbitrary: s "done")
  case Nil
  then show ?case by simp
next
  case (Cons c calls)
  obtain p avg nm where c: "c = (p, avg, nm)" by (cases c)
  from Cons.prems(2) have cs: "c_strings done" "CHR 0x00 \<notin> set nm" "c_strings ((done @ [c]) @ calls)"
    by (simp_all add: c c_strings_def)
  from Cons.prems(3) have new0: "region_key N c \<notin> region_key N ` set done"
    and dist: "distinct (map (region_key N) ((done @ [c]) @ calls))"
    by auto
  from new0 have new: "(p, take (N - 1) nm) \<notin> region_key N ` set done"
    by (simp add: c region_key_def)
  from Cons.prems(4) have room: "int (length done) < static_max_regions s" by simp
  from register_fresh [OF Cons.prems(1) cs(1,2) new room, of avg]
  obtain s' where reg: "shmem_talp__register N s p avg nm = (DLB_SUCCESS, Some (int (length done)), s')"
    and h': "holds_calls N s' (done @ [c])" and st: "static_max_regions s' = static_max_regions s"
    by (auto simp: c)
  from Cons.prems(4) st have room': "int (length (done @ [c])) + int (length calls) \<le> static_max_regions s'"
    by simp
  obtain rs s2 where re: "register_each N s' calls = (rs, s2)"
    by (cases "register_each N s' calls")
  from Cons.IH [OF h' cs(3) dist room'] re
  have rs: "rs = map (\<lambda>k. (DLB_SUCCESS, Some (int k)))
                  [length (done @ [c]) ..< length (done @ [c]) + length calls]"
    and h2: "holds_calls N s2 ((done @ [c]) @ calls)"
    and st2: "static_max_regions s2 = static_max_regions s'"
    by simp_all
  have upt: "[length done ..< length done + length (c # calls)] =
      length done # [length (done @ [c]) ..< length (done @ [c]) + length calls]"
    by (subst upt_conv_Cons) simp_all
  have all: "register_each N s (c # calls) = ((DLB_SUCCESS, Some (int (length done))) # rs, s2)"
    by (simp add: c reg re)
  have "fst (register_each N s (c # calls)) =
      map (\<lambda>k. (DLB_SUCCESS, Some (int k))) [length done ..< length done + length (c # calls)]"
    unfolding upt all rs by simp
  moreover have "holds_calls N (snd (register_each N s (c # calls))) (done @ c # calls)"
    unfolding all using h2 by simp
  moreover have "static_max_regions (snd (register_each N s (c # calls))) = static_max_regions s"
    unfolding all using st2 st by simp
  ultimately show ?case by blast
qed

lemma register_each_overflow:
  assumes h: "shm_handler t" and inv: "table_inv t" and empty: "num_regions (segment t) = 0"
    and len: "length calls = nat (shmem_talp__get_max_regions t) + 1"
    and dist: "distinct (map (region_key N) calls)" and cs: "c_strings calls"
  shows "fst (register_each N t calls) =
           map (\<lambda>k. (DLB_SUCCESS, Some (int k))) [0..<nat (shmem_talp__get_max_regions t)]
           @ [(DLB_ERR_NOMEM, None)] \<and>
         snd (register_each N t calls) = snd (register_each N t (butlast calls))"
proof -
  let ?front = "butlast calls"
  let ?cap = "shmem_talp__get_max_regions t"
  from len have ne: "calls \<noteq> []" by auto
  then have split: "calls = ?front @ [last calls]" by simp
  obtain p avg nm where lc: "last calls = (p, avg, nm)" by (cases "last calls")
  from inv have cap0: "0 \<le> ?cap"
    by (simp add: table_inv_def shmem_talp__get_max_regions_def)
  from len have lf: "length ?front = nat ?cap" by simp
  have h0: "holds_calls N t []"
    using h inv empty by (simp add: holds_calls_def)
  have csf: "c_strings ([] @ ?front)"
    using cs by (auto simp: c_strings_def list_all_iff dest: in_set_butlastD)
  have "last calls \<in> set calls" using ne by simp
  with cs have "CHR 0x00 \<notin> set (snd (snd (last calls)))"
    by (simp add: c_strings_def list_all_iff)
  then have csl: "CHR 0x00 \<notin> set nm" by (simp add: lc)
  have "distinct (butlast (map (region_key N) calls))"
    using dist by (rule distinct_butlast)
  then have df: "distinct (map (region_key N) ([] @ ?front))"
    by (simp add: map_butlast)
  have room: "int (length ([] :: (pid_t \<times> float_bits \<times> string) list)) + int (length ?front)
      \<le> static_max_regions t"
    using lf cap0 by (simp add: shmem_talp__get_max_regions_def)
  let ?t1 = "snd (register_each N t ?front)"
  from register_each_fill [OF h0 csf df room]
  have codes: "fst (register_each N t ?front) =
        map (\<lambda>k. (DLB_SUCCESS, Some (int k))) [0..<nat ?cap]"
    and h1: "holds_calls N ?t1 ?front"
    and st: "static_max_regions ?t1 = static_max_regions t"
    using lf by (simp_all del: length_butlast)
  from dist have "distinct (map (region_key N) (?front @ [last calls]))"
    using split by simp
  then have new: "(p, take (N - 1) nm) \<notin> region_key N ` set ?front"
    by (simp add: lc region_key_def)
  have full: "num_regions (segment ?t1) = shmem_talp__get_max_regions ?t1"
    using h1 lf cap0 st by (simp add: holds_calls_def shmem_talp__get_max_regions_def)
  have nomatch: "\<forall>j. int j < num_regions (segment ?t1) \<longrightarrow>
      \<not> region_matches N (talp_region (segment ?t1) ! j) p nm"
    using holds_calls_nomatch [OF h1 _ csl new] csf by simp
  from h1 have "shm_handler ?t1" by (simp add: holds_calls_def)
  from register_full [OF this full nomatch]
  have lastcall: "shmem_talp__register N ?t1 p avg nm = (DLB_ERR_NOMEM, None, ?t1)" .
  have "register_each N t calls = register_each N t (?front @ [(p, avg, nm)])"
    using split lc by simp
  also have "\<dots> = (fst (register_each N t ?front) @ [(DLB_ERR_NOMEM, None)], ?t1)"
    by (simp add: register_each_append lastcall)
  finally show ?thesis by (simp add: codes)
qed

lemma attached_world_eq:
  "attached_world =
     \<lparr>shm_handler = True, shdata = True, static_max_regions = 2, subprocesses_attached = 1,
      system_size = 2,
      segment = \<lparr>initialized = True, max_regions = 2, num_regions = 0,
                 talp_region = [zero_region, zero_region]\<rparr>,
      segment_exists = True\<rparr>"
  by code_simp

subsection \<open>Idempotent registration\<close>

text \<open>
  C1. Registration is idempotent. After a registration of \<open>(p, nm)\<close> that succeeded with
  id \<open>i\<close>, a register call with the same pid and name, whatever register calls \<open>calls\<close>
  were made in between and whatever \<open>avg_cpus\<close> it passes, returns the same id \<open>i\<close> with
  the no-update status and leaves the whole state, so also the size, unchanged.
\<close>

theorem register_idempotent:
  assumes "table_inv s"
    and "shmem_talp__register N s p avg nm = (DLB_SUCCESS, Some i, s')"
  shows "shmem_talp__register N (snd (register_each N s' calls)) p avg' nm =
           (DLB_NOUPDT, Some i, snd (register_each N s' calls))"
proof -
  from register_success_first_match [OF assms]
  have i: "0 \<le> i" and fm: "first_match N s' p nm (nat i)" by simp_all
  from register_found [OF register_each_keeps_first_match [OF fm]] i
  show ?thesis by simp
qed

theorem register_idempotent_witness:
  "table_inv attached_world \<and>
   shmem_talp__register 128 attached_world 5 0 ''R1'' = (DLB_SUCCESS, Some 0, one_region_world) \<and>
   shmem_talp__register 128 (snd (register_each 128 one_region_world [(6, 0, ''R1'')])) 5 3 ''R1'' =
     (DLB_NOUPDT, Some 0, snd (register_each 128 one_region_world [(6, 0, ''R1'')])) \<and>
   num_regions (segment (snd (register_each 128 one_region_world [(6, 0, ''R1'')]))) = 2"
proof -
  have inv: "table_inv attached_world" by code_simp
  have reg: "shmem_talp__register 128 attached_world 5 0 ''R1'' =
      (DLB_SUCCESS, Some 0, one_region_world)" by code_simp
  have size: "num_regions (segment (snd (register_each 128 one_region_world [(6, 0, ''R1'')]))) = 2"
    by code_simp
  from register_idempotent [OF inv reg, of "[(6, 0, ''R1'')]" 3] inv reg size
  show ?thesis by simp
qed

subsection \<open>Capacity bound\<close>

text \<open>
  C2. Registration respects the capacity bound. In every attached state whose size equals
  the capacity, a register call for a pair that no slot of the dense prefix matches fails
  with \<open>DLB_ERR_NOMEM\<close>, writes no id and returns the state as it was. And registering
  capacity + 1 pairs that are distinct as the table stores them into a table of size 0
  succeeds with the ids 0, 1, ... for all calls but the last one, which fails with
  \<open>DLB_ERR_NOMEM\<close> and changes nothing.
\<close>

theorem register_capacity_bound:
  "(shm_handler s \<and> num_regions (segment s) = shmem_talp__get_max_regions s \<and>
    (\<forall>j. int j < num_regions (segment s) \<longrightarrow>
         \<not> region_matches N (talp_region (segment s) ! j) p nm)
    \<longrightarrow> shmem_talp__register N s p avg nm = (DLB_ERR_NOMEM, None, s))
   \<and>
   (shm_handler t \<and> table_inv t \<and> num_regions (segment t) = 0 \<and>
    length calls = nat (shmem_talp__get_max_regions t) + 1 \<and>
    distinct (map (region_key N) calls) \<and> c_strings calls
    \<longrightarrow> fst (register_each N t calls) =
          map (\<lambda>k. (DLB_SUCCESS, Some (int k))) [0..<nat (shmem_talp__get_max_regions t)]
          @ [(DLB_ERR_NOMEM, None)] \<and>
        snd (register_each N t calls) = snd (register_each N t (butlast calls)))"
  using register_full [of s N p nm avg] register_each_overflow [of t calls N] by blast

theorem register_capacity_bound_witness:
  "shm_handler full_world \<and>
   num_regions (segment full_world) = shmem_talp__get_max_regions full_world \<and>
   \<not> region_matches 128 (talp_region (segment full_world) ! 0) 7 ''Z'' \<and>
   \<not> region_matches 128 (talp_region (segment full_world) ! 1) 7 ''Z'' \<and>
   shmem_talp__register 128 full_world 7 0 ''Z'' = (DLB_ERR_NOMEM, None, full_world) \<and>
   shm_handler attached_world \<and> table_inv attached_world \<and>
   num_regions (segment attached_world) = 0 \<and>
   length [(5, 0, ''R1''), (6, 0, ''R1''), (5 :: int, 0 :: float_bits, ''R2'')] =
     nat (shmem_talp__get_max_regions attached_world) + 1 \<and>
   distinct (map (region_key 128) [(5, 0, ''R1''), (6, 0, ''R1''), (5, 0, ''R2'')]) \<and>
   c_strings [(5, 0, ''R1''), (6, 0, ''R1''), (5, 0, ''R2'')] \<and>
   fst (register_each 128 attached_world [(5, 0, ''R1''), (6, 0, ''R1''), (5, 0, ''R2'')]) =
     [(DLB_SUCCESS, Some 0), (DLB_SUCCESS, Some 1), (DLB_ERR_NOMEM, None)] \<and>
   snd (register_each 128 attached_world [(5, 0, ''R1''), (6, 0, ''R1''), (5, 0, ''R2'')]) =
     full_world"
proof -
  have h: "shm_handler full_world" by code_simp
  have full: "num_regions (segment full_world) = shmem_talp__get_max_regions full_world"
    by code_simp
  have n2: "num_regions (segment full_world) = 2" by code_simp
  have m0: "\<not> region_matches 128 (talp_region (segment full_world) ! 0) 7 ''Z''" by code_simp
  have m1: "\<not> region_matches 128 (talp_region (segment full_world) ! 1) 7 ''Z''" by code_simp
  have none: "\<forall>j. int j < num_regions (segment full_world) \<longrightarrow>
      \<not> region_matches 128 (talp_region (segment full_world) ! j) 7 ''Z''"
  proof (intro allI impI)
    fix j assume "int j < num_regions (segment full_world)"
    then have "j = 0 \<or> j = 1" unfolding n2 by linarith
    with m0 m1 show "\<not> region_matches 128 (talp_region (segment full_world) ! j) 7 ''Z''"
      by auto
  qed
  have h': "shm_handler attached_world" by code_simp
  have inv: "table_inv attached_world" by code_simp
  have empty: "num_regions (segment attached_world) = 0" by code_simp
  have len: "length [(5, 0, ''R1''), (6, 0, ''R1''), (5 :: int, 0 :: float_bits, ''R2'')] =
      nat (shmem_talp__get_max_regions attached_world) + 1" by code_simp
  have dist: "distinct (map (region_key 128) [(5, 0, ''R1''), (6, 0, ''R1''), (5, 0, ''R2'')])"
    by code_simp
  have cs: "c_strings [(5, 0, ''R1''), (6, 0, ''R1''), (5, 0, ''R2'')]" by code_simp
  have fw: "snd (register_each 128 attached_world [(5, 0, ''R1''), (6, 0, ''R1''), (5, 0, ''R2'')])
      = full_world" by code_simp
  have codes: "map (\<lambda>k. (DLB_SUCCESS, Some (int k))) [0..<nat (shmem_talp__get_max_regions attached_world)]
      @ [(DLB_ERR_NOMEM, None)] = [(DLB_SUCCESS, Some 0), (DLB_SUCCESS, Some 1), (DLB_ERR_NOMEM, None)]"
    by code_simp
  from register_capacity_bound [of full_world 128 7 "''Z''" 0 attached_world
      "[(5, 0, ''R1''), (6, 0, ''R1''), (5, 0, ''R2'')]"]
    h full none h' inv empty len dist cs
  have "shmem_talp__register 128 full_world 7 0 ''Z'' = (DLB_ERR_NOMEM, None, full_world)"
    and "fst (register_each 128 attached_world [(5, 0, ''R1''), (6, 0, ''R1''), (5, 0, ''R2'')]) =
      map (\<lambda>k. (DLB_SUCCESS, Some (int k))) [0..<nat (shmem_talp__get_max_regions attached_world)]
      @ [(DLB_ERR_NOMEM, None)]"
    by blast+
  with h full m0 m1 h' inv empty len dist cs fw codes show ?thesis by simp
qed

section \<open>Counter access\<close>

lemma register_loop_found:
  "int (register_loop N regions p nm n i) < n \<Longrightarrow>
   region_matches N (regions ! register_loop N regions p nm n i) p nm"
proof (induction N regions p nm n i rule: register_loop.induct)
  case (1 N regions p nm n i)
  show ?case
  proof (cases "int i < n \<and> \<not> region_matches N (regions ! i) p nm")
    case True
    then have eq: "register_loop N regions p nm n i = register_loop N regions p nm n (Suc i)"
      by (simp add: register_loop.simps)
    with "1.IH" "1.prems" True show ?thesis by simp
  next
    case False
    with "1.prems" show ?thesis by (auto simp: register_loop.simps split: if_splits)
  qed
qed

lemma shmem_talp__size_segment [simp]:
  "shmem_talp__size (s\<lparr>segment := sh\<rparr>) = shmem_talp__size s"
  by (simp add: shmem_talp__size_def)

lemma register_table_inv:
  "table_inv s \<Longrightarrow> table_inv (snd (snd (shmem_talp__register N s p avg nm)))"
  by (auto simp: shmem_talp__register_def Let_def table_inv_def shmem_talp__size_def)

lemma table_inv_index:
  "table_inv s \<Longrightarrow> 0 \<le> i \<Longrightarrow> i < num_regions (segment s) \<Longrightarrow>
   nat i < length (talp_region (segment s))"
  by (auto simp: table_inv_def shmem_talp__size_def)

lemma set_get_times:
  assumes "shm_handler s" "table_inv s" "0 \<le> region_id" "region_id < num_regions (segment s)"
    "pid (talp_region (segment s) ! nat region_id) \<noteq> NOBODY"
  shows "fst (shmem_talp__set_times s region_id m u) = DLB_SUCCESS \<and>
         shmem_talp__get_times (snd (shmem_talp__set_times s region_id m u)) region_id =
           (DLB_SUCCESS, Some (m, u))"
  using assms table_inv_index [of s region_id]
  by (auto simp: shmem_talp__set_times_def shmem_talp__get_times_def Let_def table_inv_def)

lemma register_id_live:
  assumes inv: "table_inv s" and p: "p \<noteq> NOBODY"
    and reg: "shmem_talp__register N s p avg nm = (e, Some i, s1)"
  shows "shm_handler s1 \<and> table_inv s1 \<and> 0 \<le> i \<and> i < num_regions (segment s1) \<and>
         pid (talp_region (segment s1) ! nat i) = p"
proof -
  from register_table_inv [OF inv, of N p avg nm] reg have inv1: "table_inv s1" by simp
  from reg have h: "shm_handler s"
    by (auto simp: shmem_talp__register_def split: if_splits)
  let ?sh = "segment s"
  let ?r = "register_loop N (talp_region ?sh) p nm (num_regions ?sh) 0"
  show ?thesis
  proof (cases "int ?r < num_regions ?sh")
    case True
    with reg h have "s1 = s" "i = int ?r"
      by (auto simp: shmem_talp__register_def Let_def)
    moreover from register_loop_found [OF True]
    have "region_matches N (talp_region ?sh ! ?r) p nm" .
    ultimately show ?thesis using True h inv1
      by (simp add: region_matches_def)
  next
    case False
    from register_loop_notfound [OF False] inv
    have r: "?r = nat (num_regions ?sh)" by (simp add: table_inv_def)
    from reg h False have room: "num_regions ?sh < static_max_regions s"
      by (auto simp: shmem_talp__register_def Let_def split: if_splits)
    with inv have len: "?r < length (talp_region ?sh)"
      by (auto simp: r table_inv_def shmem_talp__size_def)
    from reg h False room len inv show ?thesis using inv1
      by (auto simp: shmem_talp__register_def Let_def r table_inv_def shmem_talp__size_def)
  qed
qed

text \<open>
  C3. Counter round-trip. For every id of the dense prefix whose slot has an owner (a
  registered id whose record has not been cleared), and in particular for every id that a
  register call with a non-zero pid has just returned, \<open>set_times\<close> with any two 64-bit
  values succeeds and \<open>get_times\<close> then succeeds and returns exactly those two values.
\<close>

theorem times_round_trip:
  "(shm_handler s \<and> table_inv s \<and> 0 \<le> region_id \<and> region_id < num_regions (segment s) \<and>
    pid (talp_region (segment s) ! nat region_id) \<noteq> NOBODY
    \<longrightarrow> fst (shmem_talp__set_times s region_id m u) = DLB_SUCCESS \<and>
        shmem_talp__get_times (snd (shmem_talp__set_times s region_id m u)) region_id =
          (DLB_SUCCESS, Some (m, u)))
   \<and>
   (table_inv t \<and> p \<noteq> NOBODY \<and> shmem_talp__register N t p avg nm = (e, Some i, t1)
    \<longrightarrow> fst (shmem_talp__set_times t1 i m u) = DLB_SUCCESS \<and>
        shmem_talp__get_times (snd (shmem_talp__set_times t1 i m u)) i =
          (DLB_SUCCESS, Some (m, u)))"
proof -
  have registered: "fst (shmem_talp__set_times t1 i m u) = DLB_SUCCESS \<and>
        shmem_talp__get_times (snd (shmem_talp__set_times t1 i m u)) i =
          (DLB_SUCCESS, Some (m, u))"
    if "table_inv t" "p \<noteq> NOBODY" "shmem_talp__register N t p avg nm = (e, Some i, t1)"
  proof -
    from register_id_live [OF that]
    have "shm_handler t1" "table_inv t1" "0 \<le> i" "i < num_regions (segment t1)"
      "pid (talp_region (segment t1) ! nat i) \<noteq> NOBODY"
      using that(2) by simp_all
    then show ?thesis by (rule set_get_times)
  qed
  show ?thesis using set_get_times [of s region_id m u] registered by blast
qed

theorem times_round_trip_witness:
  "shm_handler one_region_world \<and> table_inv one_region_world \<and> (0 :: int) \<le> 0 \<and>
   0 < num_regions (segment one_region_world) \<and>
   pid (talp_region (segment one_region_world) ! nat 0) \<noteq> NOBODY \<and>
   fst (shmem_talp__set_times one_region_world 0 100 200) = DLB_SUCCESS \<and>
   shmem_talp__get_times (snd (shmem_talp__set_times one_region_world 0 100 200)) 0 =
     (DLB_SUCCESS, Some (100, 200)) \<and>
   table_inv attached_world \<and> (5 :: int) \<noteq> NOBODY \<and>
   shmem_talp__register 128 attached_world 5 0 ''R1'' = (DLB_SUCCESS, Some 0, one_region_world)"
proof -
  have a: "shm_handler one_region_world \<and> table_inv one_region_world \<and> (0 :: int) \<le> 0 \<and>
    0 < num_regions (segment one_region_world) \<and>
    pid (talp_region (segment one_region_world) ! nat 0) \<noteq> NOBODY" by code_simp
  have b: "table_inv attached_world \<and> (5 :: int) \<noteq> NOBODY \<and>
    shmem_talp__register 128 attached_world 5 0 ''R1'' = (DLB_SUCCESS, Some 0, one_region_world)"
    by code_simp
  from times_round_trip [of one_region_world 0 100 200 attached_world 5 128 0 "''R1''"
      DLB_SUCCESS 0 one_region_world] a b
  show ?thesis by simp
qed

lemma get_times_code: "fst (shmem_talp__get_times s region_id) = access_code s region_id"
  by (simp add: shmem_talp__get_times_def access_code_def Let_def)

lemma set_times_code: "fst (shmem_talp__set_times s region_id m u) = access_code s region_id"
  by (simp add: shmem_talp__set_times_def access_code_def Let_def)

lemma set_avg_cpus_code: "fst (shmem_talp__set_avg_cpus s region_id a) = access_code s region_id"
  by (simp add: shmem_talp__set_avg_cpus_def access_code_def Let_def)

lemma get_times_failure:
  "access_code s region_id \<noteq> DLB_SUCCESS \<Longrightarrow> snd (shmem_talp__get_times s region_id) = None"
  by (cases "shm_handler s"; cases "static_max_regions s \<le> region_id";
      cases "region_id < 0"; cases "num_regions (segment s) \<le> region_id";
      cases "pid (talp_region (segment s) ! nat region_id) = NOBODY")
     (simp_all add: access_code_def shmem_talp__get_times_def Let_def)

lemma set_times_failure:
  "access_code s region_id \<noteq> DLB_SUCCESS \<Longrightarrow> snd (shmem_talp__set_times s region_id m u) = s"
  by (cases "shm_handler s"; cases "static_max_regions s \<le> region_id";
      cases "region_id < 0"; cases "num_regions (segment s) \<le> region_id";
      cases "pid (talp_region (segment s) ! nat region_id) = NOBODY")
     (simp_all add: access_code_def shmem_talp__set_times_def Let_def)

lemma set_avg_cpus_failure:
  "access_code s region_id \<noteq> DLB_SUCCESS \<Longrightarrow> snd (shmem_talp__set_avg_cpus s region_id a) = s"
  by (cases "shm_handler s"; cases "static_max_regions s \<le> region_id";
      cases "region_id < 0"; cases "num_regions (segment s) \<le> region_id";
      cases "pid (talp_region (segment s) ! nat region_id) = NOBODY")
     (simp_all add: access_code_def shmem_talp__set_avg_cpus_def Let_def)

text \<open>
  C4, as amended. The three counter-access functions check, in this order: not attached
  gives \<open>DLB_ERR_NOSHMEM\<close>; an id at or beyond the capacity gives \<open>DLB_ERR_NOMEM\<close>; an id
  that is negative, at or beyond the size, or names a vacated slot gives the one code
  \<open>DLB_ERR_NOENT\<close>. The three codes are distinct, and whenever the code is not success
  the state is returned unchanged and no value is read.
\<close>

theorem counter_access_failures:
  "fst (shmem_talp__get_times s region_id) = access_code s region_id \<and>
   fst (shmem_talp__set_times s region_id m u) = access_code s region_id \<and>
   fst (shmem_talp__set_avg_cpus s region_id a) = access_code s region_id \<and>
   (access_code s region_id \<noteq> DLB_SUCCESS \<longrightarrow>
      snd (shmem_talp__get_times s region_id) = None \<and>
      snd (shmem_talp__set_times s region_id m u) = s \<and>
      snd (shmem_talp__set_avg_cpus s region_id a) = s) \<and>
   DLB_ERR_NOSHMEM \<noteq> DLB_ERR_NOMEM \<and> DLB_ERR_NOSHMEM \<noteq> DLB_ERR_NOENT \<and>
   DLB_ERR_NOMEM \<noteq> DLB_ERR_NOENT"
  using get_times_code [of s region_id] set_times_code [of s region_id m u]
    set_avg_cpus_code [of s region_id a] get_times_failure [of s region_id]
    set_times_failure [of s region_id m u] set_avg_cpus_failure [of s region_id a]
  by simp

theorem counter_access_failures_witness:
  "access_code vacated_world 0 \<noteq> DLB_SUCCESS \<and>
   shmem_talp__get_times vacated_world 0 = (DLB_ERR_NOENT, None) \<and>
   shmem_talp__set_times vacated_world 0 1 2 = (DLB_ERR_NOENT, vacated_world) \<and>
   shmem_talp__set_avg_cpus vacated_world 0 3 = (DLB_ERR_NOENT, vacated_world)"
proof -
  have a: "access_code vacated_world 0 = DLB_ERR_NOENT" by code_simp
  from counter_access_failures [of vacated_world 0 1 2 3] a
  show ?thesis by (simp add: prod_eq_iff)
qed

text \<open>
  The claim as stated fails: a vacated slot (id 0), an id beyond the size but within the
  capacity (id 2) and a negative id all produce the same code, while an id at the capacity
  (id 4) produces another one.
\<close>

theorem counter_access_codes_counterexample:
  "shm_handler vacated_world \<and>
   num_regions (segment vacated_world) = 2 \<and> static_max_regions vacated_world = 4 \<and>
   pid (talp_region (segment vacated_world) ! 0) = NOBODY \<and>
   fst (shmem_talp__get_times vacated_world 0) = DLB_ERR_NOENT \<and>
   fst (shmem_talp__get_times vacated_world 2) = DLB_ERR_NOENT \<and>
   fst (shmem_talp__get_times vacated_world (- 1)) = DLB_ERR_NOENT \<and>
   fst (shmem_talp__get_times vacated_world 4) = DLB_ERR_NOMEM \<and>
   fst (shmem_talp__set_times vacated_world 0 1 1) = DLB_ERR_NOENT \<and>
   fst (shmem_talp__set_times vacated_world 2 1 1) = DLB_ERR_NOENT \<and>
   fst (shmem_talp__set_avg_cpus vacated_world 0 1) = DLB_ERR_NOENT \<and>
   fst (shmem_talp__set_avg_cpus vacated_world 2 1) = DLB_ERR_NOENT"
  by code_simp

section \<open>Clearing records\<close>

lemma finalize_loop_length [simp]: "length (finalize_loop regions p n i) = length regions"
proof (induction regions p n i rule: finalize_loop.induct)
  case (1 regions p n i)
  then show ?case by (subst finalize_loop.simps) auto
qed

lemma finalize_loop_nth:
  "finalize_loop regions p n i ! j =
     (if i \<le> j \<and> int j < n \<and> j < length regions \<and> pid (regions ! j) = p then zero_region
      else regions ! j)"
proof (induction regions p n i rule: finalize_loop.induct)
  case (1 regions p n i)
  show ?case
  proof (cases "int i < n")
    case False
    then show ?thesis by (subst finalize_loop.simps) auto
  next
    case True
    let ?regions = "if pid (regions ! i) = p then regions[i := zero_region] else regions"
    have "finalize_loop regions p n i ! j = finalize_loop ?regions p n (Suc i) ! j"
      using True by (subst finalize_loop.simps) simp
    also have "\<dots> = (if Suc i \<le> j \<and> int j < n \<and> j < length ?regions \<and> pid (?regions ! j) = p
        then zero_region else ?regions ! j)"
      using "1.IH" [OF True] by simp
    also have "\<dots> = (if i \<le> j \<and> int j < n \<and> j < length regions \<and> pid (regions ! j) = p
        then zero_region else regions ! j)"
      using True by (cases "i = j") (auto simp: nth_list_update list_update_beyond not_less)
    finally show ?thesis .
  qed
qed


lemma cleanup_loop_fst:
  "fst (cleanup_loop regions p n i e) = finalize_loop regions p n i"
proof (induction regions p n i e rule: cleanup_loop.induct)
  case (1 regions p n i e)
  then show ?case
    by (subst cleanup_loop.simps, subst finalize_loop.simps) auto
qed

lemma cleanup_loop_snd:
  "snd (cleanup_loop regions p n i e) \<longleftrightarrow>
     e \<and> (\<forall>j. i \<le> j \<and> int j < n \<longrightarrow> pid (regions ! j) = p \<or> pid (regions ! j) \<le> 0)"
proof (induction regions p n i e rule: cleanup_loop.induct)
  case (1 regions p n i e)
  show ?case
  proof (cases "int i < n")
    case False
    then show ?thesis by (subst cleanup_loop.simps) auto
  next
    case True
    have step: "(\<forall>j. i \<le> j \<and> int j < n \<longrightarrow> P j) \<longleftrightarrow>
        P i \<and> (\<forall>j. Suc i \<le> j \<and> int j < n \<longrightarrow> P j)" for P
      using True by (metis Suc_leD Suc_leI le_neq_implies_less order_refl)
    show ?thesis
    proof (cases "pid (regions ! i) = p")
      case same: True
      have other: "pid (regions[i := zero_region] ! j) = pid (regions ! j)" if "Suc i \<le> j" for j
        using that by simp
      have "snd (cleanup_loop regions p n i e) =
          snd (cleanup_loop (regions[i := zero_region]) p n (Suc i) e)"
        using True same by (subst cleanup_loop.simps) simp
      also have "\<dots> \<longleftrightarrow> e \<and> (\<forall>j. Suc i \<le> j \<and> int j < n \<longrightarrow>
          pid (regions ! j) = p \<or> pid (regions ! j) \<le> 0)"
        using "1.IH"(1) [OF True same] other by auto
      finally show ?thesis using same by (subst step) simp
    next
      case diff: False
      show ?thesis
      proof (cases "pid (regions ! i) > 0")
        case pos: True
        have "snd (cleanup_loop regions p n i e) = snd (cleanup_loop regions p n (Suc i) False)"
          using True diff pos by (subst cleanup_loop.simps) simp
        with "1.IH"(2) [OF True diff pos] have "\<not> snd (cleanup_loop regions p n i e)" by simp
        moreover have "\<not> (pid (regions ! i) = p \<or> pid (regions ! i) \<le> 0)"
          using diff pos by simp
        ultimately show ?thesis using True by (metis order_refl)
      next
        case npos: False
        have "snd (cleanup_loop regions p n i e) = snd (cleanup_loop regions p n (Suc i) e)"
          using True diff npos by (subst cleanup_loop.simps) simp
        with "1.IH"(3) [OF True diff npos] show ?thesis using npos by (subst step) auto
      qed
    qed
  qed
qed

lemma is_shmem_empty_loop_iff:
  "is_shmem_empty_loop regions n i \<longleftrightarrow>
     (\<forall>j. i \<le> j \<and> int j < n \<longrightarrow> pid (regions ! j) = NOBODY)"
proof (induction regions n i rule: is_shmem_empty_loop.induct)
  case (1 regions n i)
  show ?case
  proof (cases "int i < n")
    case False
    then show ?thesis by (subst is_shmem_empty_loop.simps) auto
  next
    case True
    have step: "(\<forall>j. i \<le> j \<and> int j < n \<longrightarrow> P j) \<longleftrightarrow>
        P i \<and> (\<forall>j. Suc i \<le> j \<and> int j < n \<longrightarrow> P j)" for P
      using True by (metis Suc_leD Suc_leI le_neq_implies_less order_refl)
    show ?thesis
      using True "1.IH" by (subst is_shmem_empty_loop.simps, subst step) auto
  qed
qed

lemma pidlist_loop_empty: "n \<le> 0 \<Longrightarrow> pidlist_loop regions n max_len i acc = acc"
  by (subst pidlist_loop.simps) simp

lemma finalize_loop_closed:
  "finalize_loop regions p n 0 =
     map (clear_owned p) (take (nat n) regions) @ drop (nat n) regions"
proof (rule nth_equalityI)
  show "length (finalize_loop regions p n 0) =
      length (map (clear_owned p) (take (nat n) regions) @ drop (nat n) regions)"
    by simp
next
  fix j assume "j < length (finalize_loop regions p n 0)"
  then have j: "j < length regions" by simp
  show "finalize_loop regions p n 0 ! j =
      (map (clear_owned p) (take (nat n) regions) @ drop (nat n) regions) ! j"
  proof (cases "int j < n")
    case True
    with j show ?thesis
      by (simp add: finalize_loop_nth nth_append clear_owned_def)
  next
    case False
    with j show ?thesis
      by (auto simp: finalize_loop_nth nth_append min_def)
  qed
qed

lemma table_inv_prefix_length:
  "table_inv s \<Longrightarrow> nat (num_regions (segment s)) \<le> length (talp_region (segment s))"
  by (auto simp: table_inv_def shmem_talp__size_def split: if_splits)

lemma survivor_iff:
  assumes "table_inv s"
  shows "(\<exists>r\<in>set (dense_prefix s). P r) \<longleftrightarrow>
         (\<exists>j. int j < num_regions (segment s) \<and> P (talp_region (segment s) ! j))"
proof -
  from table_inv_prefix_length [OF assms]
  have len: "length (dense_prefix s) = nat (num_regions (segment s))"
    by (simp add: dense_prefix_def)
  have "(\<exists>r\<in>set (dense_prefix s). P r) \<longleftrightarrow> (\<exists>j<length (dense_prefix s). P (dense_prefix s ! j))"
    by (metis in_set_conv_nth)
  also have "\<dots> \<longleftrightarrow> (\<exists>j. int j < num_regions (segment s) \<and> P (talp_region (segment s) ! j))"
    unfolding len by (auto simp: dense_prefix_def zless_nat_eq_int_zless)
  finally show ?thesis .
qed

lemma cleanup_shmem_closed:
  assumes inv: "table_inv s"
  shows "cleanup_shmem s p =
     s\<lparr>segment :=
         (if \<exists>r\<in>set (dense_prefix s). pid r \<noteq> p \<and> 0 < pid r
          then (segment s)\<lparr>talp_region := cleared_table s p\<rparr>
          else zero_payload (length (talp_region (segment s))))\<rparr>"
proof -
  let ?sh = "segment s"
  have e: "snd (cleanup_loop (talp_region ?sh) p (num_regions ?sh) 0 True) \<longleftrightarrow>
      \<not> (\<exists>r\<in>set (dense_prefix s). pid r \<noteq> p \<and> 0 < pid r)"
    unfolding survivor_iff [OF inv] cleanup_loop_snd by auto
  have f: "fst (cleanup_loop (talp_region ?sh) p (num_regions ?sh) 0 True) = cleared_table s p"
    by (simp add: cleanup_loop_fst finalize_loop_closed cleared_table_def dense_prefix_def)
  have len: "length (cleared_table s p) = length (talp_region ?sh)"
    by (simp add: cleared_table_def dense_prefix_def)
  from inv have sz: "length (talp_region ?sh) = nat (shmem_talp__size s)"
    by (simp add: table_inv_def)
  have "cleanup_shmem s p =
      s\<lparr>segment := (if snd (cleanup_loop (talp_region ?sh) p (num_regions ?sh) 0 True)
           then memset_zero (?sh\<lparr>talp_region := cleared_table s p\<rparr>) (shmem_talp__size s)
           else ?sh\<lparr>talp_region := cleared_table s p\<rparr>)\<rparr>"
    using f by (simp add: cleanup_shmem_def Let_def case_prod_beta)
  also have "memset_zero (?sh\<lparr>talp_region := cleared_table s p\<rparr>) (shmem_talp__size s)
      = zero_payload (length (talp_region ?sh))"
    using len sz by (simp add: memset_zero_def zero_payload_def)
  finally show ?thesis unfolding e by auto
qed

lemma cleared_table_noop:
  "\<forall>r\<in>set (dense_prefix s). pid r \<noteq> p \<Longrightarrow> cleared_table s p = talp_region (segment s)"
proof -
  assume "\<forall>r\<in>set (dense_prefix s). pid r \<noteq> p"
  then have "map (clear_owned p) (dense_prefix s) = dense_prefix s"
    by (simp add: clear_owned_def map_idI)
  then show ?thesis by (simp add: cleared_table_def dense_prefix_def)
qed

lemma cleanup_shmem_wipe:
  assumes "table_inv s" and "\<not> (\<exists>r\<in>set (dense_prefix s). pid r \<noteq> p \<and> 0 < pid r)"
  shows "cleanup_shmem s p = s\<lparr>segment := zero_payload (length (talp_region (segment s)))\<rparr>"
  using cleanup_shmem_closed [OF assms(1), of p] assms(2) by (simp only: if_False)

lemma cleanup_shmem_keep:
  assumes "table_inv s" and "\<exists>r\<in>set (dense_prefix s). pid r \<noteq> p \<and> 0 < pid r"
  shows "cleanup_shmem s p = s\<lparr>segment := (segment s)\<lparr>talp_region := cleared_table s p\<rparr>\<rparr>"
  using cleanup_shmem_closed [OF assms(1), of p] assms(2) by (simp only: if_True)

text \<open>
  C5. Crash cleanup. In a well-shaped table, \<open>cleanup_shmem\<close> for a dead pid changes
  nothing but the payload. If some record of the dense prefix has another, positive
  owner, exactly the records owned by the dead pid become zero and header and other
  records stay; otherwise the whole payload, header included, is zero, after which the
  initialized query answers false and \<open>get_pidlist\<close> returns no entry. For a pid that owns
  no record while another owner is present, the call changes nothing.
\<close>

theorem crash_cleanup:
  assumes "table_inv s"
  shows "cleanup_shmem s p =
           s\<lparr>segment :=
               (if \<exists>r\<in>set (dense_prefix s). pid r \<noteq> p \<and> 0 < pid r
                then (segment s)\<lparr>talp_region := cleared_table s p\<rparr>
                else zero_payload (length (talp_region (segment s))))\<rparr> \<and>
         (\<not> (\<exists>r\<in>set (dense_prefix s). pid r \<noteq> p \<and> 0 < pid r) \<longrightarrow>
            \<not> shmem_talp__initialized (cleanup_shmem s p) \<and>
            shmem_talp__get_pidlist (cleanup_shmem s p) max_len =
              (if shm_handler s then (DLB_SUCCESS, Some []) else (DLB_ERR_NOSHMEM, None))) \<and>
         ((\<exists>r\<in>set (dense_prefix s). pid r \<noteq> p \<and> 0 < pid r) \<and>
          (\<forall>r\<in>set (dense_prefix s). pid r \<noteq> p) \<longrightarrow> cleanup_shmem s p = s)"
proof (intro conjI impI)
  show "cleanup_shmem s p =
           s\<lparr>segment :=
               (if \<exists>r\<in>set (dense_prefix s). pid r \<noteq> p \<and> 0 < pid r
                then (segment s)\<lparr>talp_region := cleared_table s p\<rparr>
                else zero_payload (length (talp_region (segment s))))\<rparr>"
    by (rule cleanup_shmem_closed [OF assms])
next
  assume none: "\<not> (\<exists>r\<in>set (dense_prefix s). pid r \<noteq> p \<and> 0 < pid r)"
  show "\<not> shmem_talp__initialized (cleanup_shmem s p)"
    by (simp add: cleanup_shmem_wipe [OF assms none] zero_payload_def
        shmem_talp__initialized_def)
  show "shmem_talp__get_pidlist (cleanup_shmem s p) max_len =
      (if shm_handler s then (DLB_SUCCESS, Some []) else (DLB_ERR_NOSHMEM, None))"
    by (simp add: cleanup_shmem_wipe [OF assms none] zero_payload_def
        shmem_talp__get_pidlist_def pidlist_loop_empty)
next
  assume a: "(\<exists>r\<in>set (dense_prefix s). pid r \<noteq> p \<and> 0 < pid r) \<and>
    (\<forall>r\<in>set (dense_prefix s). pid r \<noteq> p)"
  then have surv: "\<exists>r\<in>set (dense_prefix s). pid r \<noteq> p \<and> 0 < pid r"
    and own: "\<forall>r\<in>set (dense_prefix s). pid r \<noteq> p"
    by blast+
  from own have ct: "cleared_table s p = talp_region (segment s)"
    by (rule cleared_table_noop)
  show "cleanup_shmem s p = s"
    unfolding cleanup_shmem_keep [OF assms surv] ct by simp
qed

theorem crash_cleanup_witness:
  "table_inv one_region_world \<and>
   dense_prefix one_region_world =
     [\<lparr>name = ''R1'', mpi_time = 0, useful_time = 0, pid = 5, avg_cpus = 0\<rparr>] \<and>
   segment (cleanup_shmem one_region_world 5) = zero_payload 2 \<and>
   \<not> shmem_talp__initialized (cleanup_shmem one_region_world 5) \<and>
   shmem_talp__get_pidlist (cleanup_shmem one_region_world 5) 8 = (DLB_SUCCESS, Some []) \<and>
   table_inv two_region_world \<and>
   map pid (dense_prefix two_region_world) = [5, 6] \<and>
   map pid (talp_region (segment (cleanup_shmem two_region_world 5))) = [0, 6, 0, 0] \<and>
   initialized (segment (cleanup_shmem two_region_world 5)) \<and>
   num_regions (segment (cleanup_shmem two_region_world 5)) = 2 \<and>
   cleanup_shmem two_region_world 9 = two_region_world"
proof -
  have inv1: "table_inv one_region_world" by code_simp
  have dp1: "dense_prefix one_region_world =
     [\<lparr>name = ''R1'', mpi_time = 0, useful_time = 0, pid = 5, avg_cpus = 0\<rparr>]" by code_simp
  have none: "\<not> (\<exists>r\<in>set (dense_prefix one_region_world). pid r \<noteq> 5 \<and> 0 < pid r)"
    unfolding dp1 by simp
  have h1: "shm_handler one_region_world" by code_simp
  have len1: "length (talp_region (segment one_region_world)) = 2" by code_simp
  have inv2: "table_inv two_region_world" by code_simp
  have dp2: "map pid (dense_prefix two_region_world) = [5, 6]" by code_simp
  have some5: "\<exists>r\<in>set (dense_prefix two_region_world). pid r \<noteq> 5 \<and> 0 < pid r" by code_simp
  have some9: "(\<exists>r\<in>set (dense_prefix two_region_world). pid r \<noteq> 9 \<and> 0 < pid r) \<and>
    (\<forall>r\<in>set (dense_prefix two_region_world). pid r \<noteq> 9)" by code_simp
  have ct: "map pid (cleared_table two_region_world 5) = [0, 6, 0, 0]" by code_simp
  have hd2: "initialized (segment two_region_world) \<and> num_regions (segment two_region_world) = 2"
    by code_simp
  note wiped = crash_cleanup [OF inv1, of 5 8, THEN conjunct1, unfolded if_not_P [OF none] len1]
  note queries = crash_cleanup [OF inv1, of 5 8, THEN conjunct2, THEN conjunct1, THEN mp,
      OF none, unfolded if_P [OF h1]]
  from wiped queries have a: "segment (cleanup_shmem one_region_world 5) = zero_payload 2 \<and>
   \<not> shmem_talp__initialized (cleanup_shmem one_region_world 5) \<and>
   shmem_talp__get_pidlist (cleanup_shmem one_region_world 5) 8 = (DLB_SUCCESS, Some [])"
    by simp
  note kept = crash_cleanup [OF inv2, of 5 8, THEN conjunct1, unfolded if_P [OF some5]]
  from kept ct hd2 have b: "map pid (talp_region (segment (cleanup_shmem two_region_world 5))) = [0, 6, 0, 0] \<and>
   initialized (segment (cleanup_shmem two_region_world 5)) \<and>
   num_regions (segment (cleanup_shmem two_region_world 5)) = 2" by simp
  from crash_cleanup [OF inv2, of 9 8] some9
  have c: "cleanup_shmem two_region_world 9 = two_region_world" by blast
  from inv1 dp1 a inv2 dp2 b c show ?thesis by blast
qed

lemma close_shmem_segment [simp]: "segment (close_shmem s) = segment s"
  by (simp add: close_shmem_def shmem_finalize_def Let_def)

lemma close_shmem_counter [simp]:
  "subprocesses_attached (close_shmem s) = subprocesses_attached s - 1"
  by (simp add: close_shmem_def shmem_finalize_def Let_def)

lemma close_shmem_handler:
  "shm_handler (close_shmem s) = (shm_handler s \<and> subprocesses_attached s \<noteq> 1)"
  "shdata (close_shmem s) = (shdata s \<and> subprocesses_attached s \<noteq> 1)"
  by (simp_all add: close_shmem_def shmem_finalize_def Let_def)

text \<open>
  C6, as amended. Crash cleanup wipes the whole payload to zero when it leaves no record
  with a positive owner in the dense prefix. Explicit finalize of an attached process
  does not wipe: it zeroes the records owned by the pid, leaves \<open>initialized\<close>, capacity
  and size as they were, and undoes one local attachment; the handle is dropped when that
  was the last one.
\<close>

theorem clearing_and_wipe:
  "(table_inv s \<and> \<not> (\<exists>r\<in>set (dense_prefix s). pid r \<noteq> p \<and> 0 < pid r) \<longrightarrow>
      segment (cleanup_shmem s p) = zero_payload (length (talp_region (segment s))))
   \<and>
   (shm_handler t \<longrightarrow>
      fst (shmem_talp__finalize t p) = DLB_SUCCESS \<and>
      segment (snd (shmem_talp__finalize t p)) = (segment t)\<lparr>talp_region := cleared_table t p\<rparr> \<and>
      initialized (segment (snd (shmem_talp__finalize t p))) = initialized (segment t) \<and>
      max_regions (segment (snd (shmem_talp__finalize t p))) = max_regions (segment t) \<and>
      num_regions (segment (snd (shmem_talp__finalize t p))) = num_regions (segment t) \<and>
      subprocesses_attached (snd (shmem_talp__finalize t p)) = subprocesses_attached t - 1 \<and>
      shm_handler (snd (shmem_talp__finalize t p)) = (subprocesses_attached t \<noteq> 1))"
proof (intro conjI impI)
  assume "table_inv s \<and> \<not> (\<exists>r\<in>set (dense_prefix s). pid r \<noteq> p \<and> 0 < pid r)"
  then show "segment (cleanup_shmem s p) = zero_payload (length (talp_region (segment s)))"
    by (simp add: cleanup_shmem_wipe)
next
  assume h: "shm_handler t"
  have fin: "shmem_talp__finalize t p =
      (DLB_SUCCESS, close_shmem (t\<lparr>segment := (segment t)\<lparr>talp_region := cleared_table t p\<rparr>\<rparr>))"
    using h by (simp add: shmem_talp__finalize_def Let_def finalize_loop_closed
        cleared_table_def dense_prefix_def)
  show "fst (shmem_talp__finalize t p) = DLB_SUCCESS"
    and "segment (snd (shmem_talp__finalize t p)) = (segment t)\<lparr>talp_region := cleared_table t p\<rparr>"
    and "initialized (segment (snd (shmem_talp__finalize t p))) = initialized (segment t)"
    and "max_regions (segment (snd (shmem_talp__finalize t p))) = max_regions (segment t)"
    and "num_regions (segment (snd (shmem_talp__finalize t p))) = num_regions (segment t)"
    and "subprocesses_attached (snd (shmem_talp__finalize t p)) = subprocesses_attached t - 1"
    and "shm_handler (snd (shmem_talp__finalize t p)) = (subprocesses_attached t \<noteq> 1)"
    using h by (simp_all add: fin close_shmem_handler)
qed

theorem clearing_and_wipe_witness:
  "table_inv one_region_world \<and>
   dense_prefix one_region_world =
     [\<lparr>name = ''R1'', mpi_time = 0, useful_time = 0, pid = 5, avg_cpus = 0\<rparr>] \<and>
   segment (cleanup_shmem one_region_world 5) = zero_payload 2 \<and>
   shm_handler twice_attached_world \<and>
   shmem_talp__finalize twice_attached_world 5 =
     (DLB_SUCCESS,
      \<lparr>shm_handler = True, shdata = True, static_max_regions = 2, subprocesses_attached = 1,
       system_size = 2,
       segment = \<lparr>initialized = True, max_regions = 2, num_regions = 1,
                  talp_region = [zero_region, zero_region]\<rparr>,
       segment_exists = True\<rparr>)"
proof -
  have inv1: "table_inv one_region_world" by code_simp
  have dp1: "dense_prefix one_region_world =
     [\<lparr>name = ''R1'', mpi_time = 0, useful_time = 0, pid = 5, avg_cpus = 0\<rparr>]" by code_simp
  have none: "\<not> (\<exists>r\<in>set (dense_prefix one_region_world). pid r \<noteq> 5 \<and> 0 < pid r)"
    unfolding dp1 by simp
  have len1: "length (talp_region (segment one_region_world)) = 2" by code_simp
  have h: "shm_handler twice_attached_world" by code_simp
  have fin: "shmem_talp__finalize twice_attached_world 5 =
     (DLB_SUCCESS,
      \<lparr>shm_handler = True, shdata = True, static_max_regions = 2, subprocesses_attached = 1,
       system_size = 2,
       segment = \<lparr>initialized = True, max_regions = 2, num_regions = 1,
                  talp_region = [zero_region, zero_region]\<rparr>,
       segment_exists = True\<rparr>)" by code_simp
  note wiped = clearing_and_wipe [of one_region_world 5 twice_attached_world, THEN conjunct1,
      THEN mp, OF conjI [OF inv1 none], unfolded len1]
  note finalized = clearing_and_wipe [of one_region_world 5 twice_attached_world, THEN conjunct2,
      THEN mp, OF h, THEN conjunct1]
  from inv1 dp1 wiped h finalized fin show ?thesis by blast
qed

text \<open>
  The claim as stated fails for finalize: in a process attached twice whose only record
  belongs to pid 5, \<open>finalize 5\<close> leaves no owned record, and the payload still is
  initialized with capacity 2 and size 1.
\<close>

theorem finalize_wipe_counterexample:
  "shm_handler twice_attached_world \<and>
   map pid (dense_prefix twice_attached_world) = [5] \<and>
   is_shmem_empty (snd (shmem_talp__finalize twice_attached_world 5)) \<and>
   initialized (segment (snd (shmem_talp__finalize twice_attached_world 5))) \<and>
   max_regions (segment (snd (shmem_talp__finalize twice_attached_world 5))) = 2 \<and>
   num_regions (segment (snd (shmem_talp__finalize twice_attached_world 5))) = 1 \<and>
   shmem_talp__initialized (snd (shmem_talp__finalize twice_attached_world 5)) \<and>
   segment (snd (shmem_talp__finalize twice_attached_world 5)) \<noteq> zero_payload 2"
  by code_simp

section \<open>Listing the regions of a name\<close>

lemma matches_from_step:
  "int i < n \<Longrightarrow>
   matches_from N regions nm n i =
     (if live_match N nm (regions ! i) then [region_snapshot (regions ! i) i] else [])
     @ matches_from N regions nm n (Suc i)"
proof -
  assume "int i < n"
  then have "i < nat n" by linarith
  then have "[i..<nat n] = i # [Suc i..<nat n]" by (rule upt_conv_Cons)
  then show ?thesis by (simp add: matches_from_def region_snapshot_def)
qed

lemma matches_from_done: "\<not> int i < n \<Longrightarrow> matches_from N regions nm n i = []"
  by (simp add: matches_from_def)

lemma regionlist_loop_closed:
  "regionlist_loop N regions nm n max_len i acc =
     acc @ take (nat max_len - length acc) (matches_from N regions nm n i)"
proof (induction N regions nm n max_len i acc rule: regionlist_loop.induct)
  case (1 N regions nm n max_len i acc)
  show ?case
  proof (cases "int i < n \<and> int (length acc) < max_len")
    case False
    then have "regionlist_loop N regions nm n max_len i acc = acc"
      by (subst regionlist_loop.simps) auto
    moreover from False have "take (nat max_len - length acc) (matches_from N regions nm n i) = []"
      by (cases "int i < n") (auto simp: matches_from_done)
    ultimately show ?thesis by simp
  next
    case True
    then have room: "nat max_len - length acc = Suc (nat max_len - Suc (length acc))" by linarith
    show ?thesis
    proof (cases "live_match N nm (regions ! i)")
      case m: True
      then have c: "pid (regions ! i) \<noteq> NOBODY \<and> strncmp (name (regions ! i)) nm (N - 1) = 0"
        by (simp add: live_match_def)
      have "regionlist_loop N regions nm n max_len i acc =
          regionlist_loop N regions nm n max_len (Suc i) (acc @ [region_snapshot (regions ! i) i])"
        using True c by (subst regionlist_loop.simps) simp
      also have "\<dots> = (acc @ [region_snapshot (regions ! i) i]) @
          take (nat max_len - length (acc @ [region_snapshot (regions ! i) i]))
            (matches_from N regions nm n (Suc i))"
        using "1.IH"(1) [OF True c] .
      also have "\<dots> = acc @ take (nat max_len - length acc) (matches_from N regions nm n i)"
        using True m by (simp add: matches_from_step room)
      finally show ?thesis .
    next
      case m: False
      then have c: "\<not> (pid (regions ! i) \<noteq> NOBODY \<and> strncmp (name (regions ! i)) nm (N - 1) = 0)"
        by (simp add: live_match_def)
      have "regionlist_loop N regions nm n max_len i acc =
          regionlist_loop N regions nm n max_len (Suc i) acc"
        using True c by (subst regionlist_loop.simps) auto
      also have "\<dots> = acc @ take (nat max_len - length acc) (matches_from N regions nm n (Suc i))"
        using "1.IH"(2) [OF True c] .
      also have "\<dots> = acc @ take (nat max_len - length acc) (matches_from N regions nm n i)"
        using True m by (simp add: matches_from_step)
      finally show ?thesis .
    qed
  qed
qed

lemma mset_qsort_insert: "mset (qsort_insert cmp x ys) = add_mset x (mset ys)"
  by (induction ys) auto

lemma mset_qsort: "mset (qsort cmp xs) = mset xs"
  by (induction xs) (auto simp: mset_qsort_insert)

lemma set_qsort_insert: "set (qsort_insert cmp x ys) = insert x (set ys)"
  by (induction ys) auto

lemma sorted_qsort_insert:
  assumes "\<forall>y\<in>set ys. (cmp x y \<le> 0) = (key x \<le> key y)" and "sorted (map key ys)"
  shows "sorted (map key (qsort_insert cmp x ys))"
  using assms
proof (induction ys)
  case Nil
  then show ?case by simp
next
  case (Cons y ys)
  show ?case
  proof (cases "cmp x y \<le> 0")
    case True
    with Cons.prems have "key x \<le> key y" by simp
    with Cons.prems(2) True show ?thesis by auto
  next
    case False
    with Cons.prems have yx: "key y \<le> key x" by auto
    from Cons.prems have "sorted (map key (qsort_insert cmp x ys))"
      by (intro Cons.IH) auto
    with Cons.prems(2) yx False show ?thesis
      by (auto simp: set_qsort_insert)
  qed
qed

lemma sorted_qsort:
  fixes key :: "'a \<Rightarrow> int"
  assumes "\<forall>x\<in>set xs. \<forall>y\<in>set xs. (cmp x y \<le> 0) = (key x \<le> key y)"
  shows "sorted (map key (qsort cmp xs))"
  using assms
proof (induction xs)
  case Nil
  then show ?case by simp
next
  case (Cons x xs)
  have "set (qsort cmp xs) = set xs"
    by (metis mset_qsort set_mset_mset)
  with Cons show ?case
    by (auto intro!: sorted_qsort_insert)
qed

lemma cmp_region_list_order:
  assumes "0 \<le> rl_pid a" "rl_pid a < 2 ^ 31" "0 \<le> rl_pid b" "rl_pid b < 2 ^ 31"
  shows "(cmp_region_list a b \<le> 0) = (rl_pid a \<le> rl_pid b)"
proof -
  have "signed_take_bit 31 (rl_pid a - rl_pid b) = rl_pid a - rl_pid b"
    using assms by (intro signed_take_bit_int_eq_self) auto
  then show ?thesis by (simp add: cmp_region_list_def wrap_int_def)
qed

lemma matches_from_entry:
  assumes "e \<in> set (matches_from N regions nm n 0)"
  shows "\<exists>k<nat n. live_match N nm (regions ! k) \<and>
           rl_pid e = pid (regions ! k) \<and> rl_region_id e = int k \<and>
           rl_mpi_time e = mpi_time (regions ! k) \<and>
           rl_useful_time e = useful_time (regions ! k) \<and>
           rl_avg_cpus e = avg_cpus (regions ! k)"
  using assms by (auto simp: matches_from_def)

text \<open>
  C7. \<open>get_regionlist\<close> of an attached process whose table holds process ids succeeds.
  What it writes is, as a multiset, the first \<open>max_len\<close> snapshots (in table order) of the
  live slots whose name matches, whatever their pid; so it writes at most \<open>max_len\<close>
  entries, and all matching ones when the buffer is large enough. The entries are in
  ascending order of pid, and each entry belongs to a live, matching slot of the dense
  prefix: its \<open>region_id\<close> is the index of the slot and its \<open>pid\<close>, \<open>mpi_time\<close>,
  \<open>useful_time\<close> and \<open>avg_cpus\<close> are those of the record.
\<close>

theorem regionlist_sorted:
  assumes "shm_handler s" and "valid_pids s"
  shows "\<exists>out. shmem_talp__get_regionlist N s max_len nm = (DLB_SUCCESS, Some out) \<and>
           mset out = mset (take (nat max_len) (live_matches N s nm)) \<and>
           length out \<le> nat max_len \<and>
           sorted (map rl_pid out) \<and>
           (\<forall>e\<in>set out. \<exists>k<nat (num_regions (segment s)).
              pid (talp_region (segment s) ! k) \<noteq> NOBODY \<and>
              strncmp (name (talp_region (segment s) ! k)) nm (N - 1) = 0 \<and>
              rl_pid e = pid (talp_region (segment s) ! k) \<and>
              rl_region_id e = int k \<and>
              rl_mpi_time e = mpi_time (talp_region (segment s) ! k) \<and>
              rl_useful_time e = useful_time (talp_region (segment s) ! k) \<and>
              rl_avg_cpus e = avg_cpus (talp_region (segment s) ! k))"
proof -
  let ?regions = "talp_region (segment s)"
  let ?n = "num_regions (segment s)"
  let ?coll = "take (nat max_len) (live_matches N s nm)"
  let ?out = "qsort cmp_region_list ?coll"
  have loop: "regionlist_loop N ?regions nm ?n max_len 0 [] = ?coll"
    by (simp add: regionlist_loop_closed live_matches_def)
  have res: "shmem_talp__get_regionlist N s max_len nm = (DLB_SUCCESS, Some ?out)"
    using assms(1) by (simp add: shmem_talp__get_regionlist_def loop)
  have ms: "mset ?out = mset ?coll" by (rule mset_qsort)
  then have len: "length ?out \<le> nat max_len"
    by (metis length_take min.cobounded2 size_mset)
  have entry: "\<exists>k<nat ?n. live_match N nm (?regions ! k) \<and>
      rl_pid e = pid (?regions ! k) \<and> rl_region_id e = int k \<and>
      rl_mpi_time e = mpi_time (?regions ! k) \<and>
      rl_useful_time e = useful_time (?regions ! k) \<and>
      rl_avg_cpus e = avg_cpus (?regions ! k)"
    if "e \<in> set ?coll" for e
  proof -
    from that have "e \<in> set (matches_from N ?regions nm ?n 0)"
      by (auto simp: live_matches_def dest: in_set_takeD)
    then show ?thesis by (rule matches_from_entry)
  qed
  have range: "0 \<le> rl_pid e \<and> rl_pid e < 2 ^ 31" if "e \<in> set ?coll" for e
  proof -
    from entry [OF that] obtain k where "k < nat ?n" "rl_pid e = pid (?regions ! k)" by blast
    with assms(2) show ?thesis by (simp add: valid_pids_def)
  qed
  have "\<forall>x\<in>set ?coll. \<forall>y\<in>set ?coll. (cmp_region_list x y \<le> 0) = (rl_pid x \<le> rl_pid y)"
  proof (intro ballI)
    fix x y assume "x \<in> set ?coll" "y \<in> set ?coll"
    from range [OF this(1)] range [OF this(2)]
    show "(cmp_region_list x y \<le> 0) = (rl_pid x \<le> rl_pid y)"
      by (intro cmp_region_list_order) simp_all
  qed
  then have srt: "sorted (map rl_pid ?out)" by (rule sorted_qsort)
  have "set ?out = set ?coll" by (metis ms set_mset_mset)
  then have ent: "\<forall>e\<in>set ?out. \<exists>k<nat ?n.
      pid (?regions ! k) \<noteq> NOBODY \<and> strncmp (name (?regions ! k)) nm (N - 1) = 0 \<and>
      rl_pid e = pid (?regions ! k) \<and> rl_region_id e = int k \<and>
      rl_mpi_time e = mpi_time (?regions ! k) \<and>
      rl_useful_time e = useful_time (?regions ! k) \<and>
      rl_avg_cpus e = avg_cpus (?regions ! k)"
    using entry unfolding live_match_def by blast
  from res ms len srt ent show ?thesis by blast
qed

theorem regionlist_sorted_witness:
  "shm_handler listing_world \<and> valid_pids listing_world \<and>
   map pid (dense_prefix listing_world) = [30, 10, 20, 15] \<and>
   map mpi_time (dense_prefix listing_world) = [300, 100, 200, 0] \<and>
   map useful_time (dense_prefix listing_world) = [301, 101, 201, 0] \<and>
   map avg_cpus (dense_prefix listing_world) = [3, 1, 2, 9] \<and>
   map rl_pid (live_matches 128 listing_world ''X'') = [30, 10, 20] \<and>
   shmem_talp__get_regionlist 128 listing_world 8 ''X'' =
     (DLB_SUCCESS,
      Some [\<lparr>rl_pid = 10, rl_region_id = 1, rl_mpi_time = 100, rl_useful_time = 101,
               rl_avg_cpus = 1\<rparr>,
            \<lparr>rl_pid = 20, rl_region_id = 2, rl_mpi_time = 200, rl_useful_time = 201,
               rl_avg_cpus = 2\<rparr>,
            \<lparr>rl_pid = 30, rl_region_id = 0, rl_mpi_time = 300, rl_useful_time = 301,
               rl_avg_cpus = 3\<rparr>]) \<and>
   map rl_pid (the (snd (shmem_talp__get_regionlist 128 listing_world 2 ''X''))) = [10, 30] \<and>
   sorted (map rl_pid (the (snd (shmem_talp__get_regionlist 128 listing_world 8 ''X''))))"
proof -
  have h: "shm_handler listing_world" by code_simp
  have v: "valid_pids listing_world" by code_simp
  have p: "map pid (dense_prefix listing_world) = [30, 10, 20, 15] \<and>
    map mpi_time (dense_prefix listing_world) = [300, 100, 200, 0] \<and>
    map useful_time (dense_prefix listing_world) = [301, 101, 201, 0] \<and>
    map avg_cpus (dense_prefix listing_world) = [3, 1, 2, 9]" by code_simp
  have m: "map rl_pid (live_matches 128 listing_world ''X'') = [30, 10, 20]" by code_simp
  have r: "shmem_talp__get_regionlist 128 listing_world 8 ''X'' =
     (DLB_SUCCESS,
      Some [\<lparr>rl_pid = 10, rl_region_id = 1, rl_mpi_time = 100, rl_useful_time = 101,
               rl_avg_cpus = 1\<rparr>,
            \<lparr>rl_pid = 20, rl_region_id = 2, rl_mpi_time = 200, rl_useful_time = 201,
               rl_avg_cpus = 2\<rparr>,
            \<lparr>rl_pid = 30, rl_region_id = 0, rl_mpi_time = 300, rl_useful_time = 301,
               rl_avg_cpus = 3\<rparr>])"
    by code_simp
  have t: "map rl_pid (the (snd (shmem_talp__get_regionlist 128 listing_world 2 ''X''))) = [10, 30]"
    by code_simp
  from regionlist_sorted [OF h v, of 128 8 "''X''"]
  obtain out where "shmem_talp__get_regionlist 128 listing_world 8 ''X'' = (DLB_SUCCESS, Some out)"
    and "sorted (map rl_pid out)" by blast
  then have "sorted (map rl_pid (the (snd (shmem_talp__get_regionlist 128 listing_world 8 ''X''))))"
    by simp
  with h v p m r t show ?thesis by blast
qed

section \<open>Attach-time capacity mismatch\<close>

lemma open_shmem_segment:
  "shm_handler s \<or> segment_exists s \<Longrightarrow> segment (open_shmem s key multiplier) = segment s"
  by (auto simp: open_shmem_def shmem_init_def Let_def)

lemma open_shmem_static:
  "static_max_regions (open_shmem s key multiplier) =
     (if shm_handler s then static_max_regions s else wrap_int (system_size s * multiplier))"
  by (simp add: open_shmem_def shmem_init_def Let_def)

lemma open_shmem_counter:
  "subprocesses_attached (open_shmem s key multiplier) =
     (if shm_handler s then subprocesses_attached s + 1 else 1)"
  by (simp add: open_shmem_def shmem_init_def Let_def)

lemma open_shmem_handler:
  "shm_handler (open_shmem s key multiplier)" "shdata s = shm_handler s \<Longrightarrow> shdata (open_shmem s key multiplier)"
  by (auto simp: open_shmem_def shmem_init_def Let_def)

lemma init_mismatch:
  assumes "shm_handler s \<or> segment_exists s" and "initialized (segment s)"
    and "max_regions (segment s) \<noteq>
           (if shm_handler s then static_max_regions s else wrap_int (system_size s * multiplier))"
  shows "shmem_talp__init s key multiplier = (DLB_ERR_INIT, close_shmem (open_shmem s key multiplier))"
  using assms
  by (simp add: shmem_talp__init_def Let_def open_shmem_segment open_shmem_static)

text \<open>
  The capacity of the attaching process is the 32-bit product: with four CPUs and the
  multiplier 1073741825 it is 4, which agrees with a stored capacity of 4, and \<open>init\<close>
  succeeds.
\<close>

lemma init_wrapped_capacity:
  "wrap_int (system_size four_cpu_second_world * 1073741825) = 4 \<and>
   max_regions (segment four_cpu_second_world) = 4 \<and>
   fst (shmem_talp__init four_cpu_second_world ''talp'' 1073741825) = DLB_SUCCESS \<and>
   static_max_regions (snd (shmem_talp__init four_cpu_second_world ''talp'' 1073741825)) = 4"
  by code_simp

lemma open_shmem_wraps:
  "static_max_regions (open_shmem (fresh_world 2) ''talp'' 1073741824) = - 2147483648"
  by code_simp

text \<open>
  C8. When \<open>init\<close> finds an initialized segment whose stored capacity differs from the
  capacity of the attaching process (for a process not yet attached, the 32-bit product
  of the CPU count and the multiplier), it returns \<open>DLB_ERR_INIT\<close> and leaves the payload of
  the segment as it was. \<open>open_shmem\<close> has set the local attach counter to 1 (first local
  attach) or incremented it, and the compensating \<open>close_shmem\<close> decrements it again: the
  counter ends at its value before the call (0 for a process that was not attached, whose
  handle is dropped again).
\<close>

theorem init_capacity_mismatch:
  assumes "shm_handler s \<or> segment_exists s" and "initialized (segment s)"
    and "max_regions (segment s) \<noteq>
           (if shm_handler s then static_max_regions s else wrap_int (system_size s * multiplier))"
  shows "fst (shmem_talp__init s key multiplier) = DLB_ERR_INIT \<and>
         segment (snd (shmem_talp__init s key multiplier)) = segment s \<and>
         subprocesses_attached (open_shmem s key multiplier) =
           (if shm_handler s then subprocesses_attached s + 1 else 1) \<and>
         subprocesses_attached (snd (shmem_talp__init s key multiplier)) =
           subprocesses_attached (open_shmem s key multiplier) - 1 \<and>
         subprocesses_attached (snd (shmem_talp__init s key multiplier)) =
           (if shm_handler s then subprocesses_attached s else 0) \<and>
         shm_handler (snd (shmem_talp__init s key multiplier)) =
           (shm_handler s \<and> subprocesses_attached s \<noteq> 0)"
  unfolding init_mismatch [OF assms]
  using assms(1)
  by (simp add: open_shmem_segment open_shmem_counter close_shmem_handler open_shmem_handler)

theorem init_capacity_mismatch_witness:
  "segment_exists second_process_world \<and>
   initialized (segment second_process_world) \<and>
   max_regions (segment second_process_world) = 2 \<and>
   wrap_int (system_size second_process_world * 3) = 6 \<and>
   \<not> shm_handler second_process_world \<and>
   subprocesses_attached second_process_world = 0 \<and>
   fst (shmem_talp__init second_process_world ''talp'' 3) = DLB_ERR_INIT \<and>
   segment (snd (shmem_talp__init second_process_world ''talp'' 3)) =
     segment second_process_world \<and>
   subprocesses_attached (open_shmem second_process_world ''talp'' 3) = 1 \<and>
   subprocesses_attached (snd (shmem_talp__init second_process_world ''talp'' 3)) = 0 \<and>
   \<not> shm_handler (snd (shmem_talp__init second_process_world ''talp'' 3))"
proof -
  have a: "shm_handler second_process_world \<or> segment_exists second_process_world" by code_simp
  have b: "initialized (segment second_process_world)" by code_simp
  have c: "max_regions (segment second_process_world) \<noteq>
      (if shm_handler second_process_world then static_max_regions second_process_world
       else wrap_int (system_size second_process_world * 3))" by code_simp
  have d: "segment_exists second_process_world \<and> max_regions (segment second_process_world) = 2 \<and>
      wrap_int (system_size second_process_world * 3) = 6 \<and>
      \<not> shm_handler second_process_world \<and>
      subprocesses_attached second_process_world = 0" by code_simp
  from init_capacity_mismatch [OF a b c, of "''talp''"] b d show ?thesis by simp
qed

text \<open>
  The two pointers are set and cleared together, which is why the functions that test
  \<open>shm_handler\<close> may go on to read through \<open>shdata\<close>.
\<close>

lemma pointers_in_step:
  assumes "shdata s = shm_handler s"
  shows "shdata (open_shmem s key multiplier) = shm_handler (open_shmem s key multiplier)"
    and "shdata (close_shmem s) = shm_handler (close_shmem s)"
    and "shdata (snd (shmem_talp__init s key multiplier)) =
           shm_handler (snd (shmem_talp__init s key multiplier))"
    and "shdata (snd (shmem_talp__finalize s p)) = shm_handler (snd (shmem_talp__finalize s p))"
  using assms
  by (auto simp: open_shmem_def shmem_init_def close_shmem_def shmem_finalize_def
      shmem_talp__init_def shmem_talp__finalize_def Let_def)

section \<open>Shape of the table\<close>



lemma cleared_table_length [simp]:
  "length (cleared_table s p) = length (talp_region (segment s))"
  by (simp add: cleared_table_def dense_prefix_def)







lemma cleanup_static: "static_max_regions (cleanup_shmem s p) = static_max_regions s"
  by (simp add: cleanup_shmem_def Let_def case_prod_beta)









lemma open_shmem_table_inv:
  "shm_handler s \<Longrightarrow> table_inv (open_shmem s key multiplier) = table_inv s"
  by (simp add: open_shmem_def table_inv_def shmem_talp__size_def)









section \<open>Metadata queries\<close>

text \<open>
  C10. \<open>shmem_talp__get_num_regions\<close> reads through \<open>shdata\<close> without a check: it returns
  the size exactly when the pointer is set and is a NULL dereference otherwise, so it
  never reports the not-attached error. The initialized query checks the pointer first
  and answers false for a process that is not attached, and the operations on the table
  return \<open>DLB_ERR_NOSHMEM\<close> there.
\<close>

theorem get_num_regions_unguarded:
  "shmem_talp__get_num_regions s =
     (if shdata s then Returns (num_regions (segment s)) else NullDeref) \<and>
   shmem_talp__initialized s = (shdata s \<and> initialized (segment s)) \<and>
   (\<not> shm_handler s \<and> \<not> shdata s \<longrightarrow>
      shmem_talp__get_num_regions s = NullDeref \<and>
      \<not> shmem_talp__initialized s \<and>
      fst (shmem_talp__register N s p avg nm) = DLB_ERR_NOSHMEM \<and>
      fst (shmem_talp__finalize s p) = DLB_ERR_NOSHMEM \<and>
      fst (shmem_talp_ext__finalize s) = DLB_ERR_NOSHMEM \<and>
      fst (shmem_talp__get_pidlist s max_len) = DLB_ERR_NOSHMEM \<and>
      fst (shmem_talp__get_region N s p nm) = DLB_ERR_NOSHMEM \<and>
      fst (shmem_talp__get_regionlist N s max_len nm) = DLB_ERR_NOSHMEM \<and>
      fst (shmem_talp__get_times s region_id) = DLB_ERR_NOSHMEM \<and>
      fst (shmem_talp__set_times s region_id m u) = DLB_ERR_NOSHMEM \<and>
      fst (shmem_talp__set_avg_cpus s region_id a) = DLB_ERR_NOSHMEM)"
  by (simp add: shmem_talp__get_num_regions_def shmem_talp__initialized_def
      shmem_talp__register_def shmem_talp__finalize_def shmem_talp_ext__finalize_def
      shmem_talp__get_pidlist_def shmem_talp__get_region_def shmem_talp__get_regionlist_def
      shmem_talp__get_times_def shmem_talp__set_times_def shmem_talp__set_avg_cpus_def)

theorem get_num_regions_unguarded_witness:
  "\<not> shm_handler (fresh_world 2) \<and> \<not> shdata (fresh_world 2) \<and>
   shmem_talp__get_num_regions (fresh_world 2) = NullDeref \<and>
   \<not> shmem_talp__initialized (fresh_world 2) \<and>
   fst (shmem_talp__get_times (fresh_world 2) 0) = DLB_ERR_NOSHMEM \<and>
   shmem_talp__get_num_regions one_region_world = Returns 1"
proof -
  have a: "\<not> shm_handler (fresh_world 2) \<and> \<not> shdata (fresh_world 2)" by code_simp
  have b: "shdata one_region_world \<and> num_regions (segment one_region_world) = 1" by code_simp
  from get_num_regions_unguarded [of "fresh_world 2" 128 5 0 "''R1''" 1 0 0 0 0] a
    get_num_regions_unguarded [of one_region_world 128 5 0 "''R1''" 1 0 0 0 0] b
  show ?thesis by simp
qed

end
